theory Spec2Isabelle
  imports Main "HOL-Library.Log_Nat" "HOL-Library.Signed_Division" "HOL-Library.Sublist"
    "HOL-Library.Word"
begin

section \<open>The concurrent ordered fetcher of the Kafka ingest reader\<close>

text \<open>
  A shallow embedding of the concurrent fetcher of package \<open>ingest\<close>: the
  \<open>fetchWant\<close> arithmetic and its byte estimator, the error classifier
  \<open>handleKafkaFetchErr\<close>, one round trip \<open>fetchSingle\<close>, the worker's attempt loop,
  the body of the dispatcher's ordering loop and \<open>PollFetches\<close>.

  Conventions. Go's \<open>int64\<close> and \<open>int\<close> (64 bits on the platforms the program is built
  for) are \<open>int\<close> with the two's complement wrap-around written out where the source
  does arithmetic (\<open>wrap64\<close>); \<open>int32\<close> likewise (\<open>wrap32\<close>). A \<open>float64\<close> is a value
  of the datatype \<open>f64\<close>, with every operation rounded to nearest, ties to even. Tracing
  spans, loggers and the \<open>context.Context\<close> carried inside a result are left out: they
  influence no value computed here. What the environment decides (the broker's answer,
  which case of a \<open>select\<close> is ready) is an argument of the function that models the code.
\<close>

subsection \<open>Machine integers\<close>

definition wrap64 :: "int \<Rightarrow> int" where
  "wrap64 x = signed_take_bit 63 x"

definition wrap32 :: "int \<Rightarrow> int" where
  "wrap32 x = signed_take_bit 31 x"

definition MaxInt32 :: int where
  "MaxInt32 = 2147483647"

definition MinInt64 :: int where
  "MinInt64 = - 9223372036854775808"

definition MaxInt64 :: int where
  "MaxInt64 = 9223372036854775807"

subsection \<open>IEEE 754 binary64 arithmetic\<close>

text \<open>
  A finite \<open>float64\<close> is the rational number it denotes. The sign of a zero is not kept:
  the program only ever divides by \<open>float64(n)\<close> for an integer \<open>n\<close>, which is never
  the negative zero, and converts results back to integers, where both zeros give 0.
  \<open>f64_round\<close> is the rounding every operation ends with: 53 significant bits, exponent
  of the last place at least \<open>-1074\<close> (subnormal numbers), overflow to an infinity.
\<close>

datatype f64 = Fin rat | PInf | NInf | NaN

definition pow2 :: "int \<Rightarrow> rat" where
  "pow2 k = (if 0 \<le> k then 2 ^ nat k else 1 / 2 ^ nat (- k))"

text \<open>\<open>ilog2 q\<close> is \<open>\<lfloor>log\<^sub>2 q\<rfloor>\<close> for a positive rational \<open>q\<close>.\<close>

definition ilog2 :: "rat \<Rightarrow> int" where
  "ilog2 q =
     (let l = bitlen (fst (quotient_of q)) - bitlen (snd (quotient_of q))
      in if pow2 l \<le> q then l else l - 1)"

text \<open>Rounding a rational to the nearest integer, ties to the even one.\<close>

definition rne :: "rat \<Rightarrow> int" where
  "rne q =
     (let f = \<lfloor>q\<rfloor>; d = q - of_int f
      in if d < 1 / 2 then f
         else if 1 / 2 < d then f + 1
         else if even f then f else f + 1)"

definition f64_round :: "rat \<Rightarrow> f64" where
  "f64_round q =
     (if q = 0 then Fin 0
      else
        let e = max (ilog2 \<bar>q\<bar> - 52) (- 1074);
            v = of_int (rne (\<bar>q\<bar> / pow2 e)) * pow2 e
        in if pow2 1024 \<le> v then (if 0 < q then PInf else NInf)
           else Fin (sgn q * v))"

fun f64_mul :: "f64 \<Rightarrow> f64 \<Rightarrow> f64" where
  "f64_mul (Fin a) (Fin b) = f64_round (a * b)"
| "f64_mul NaN y = NaN"
| "f64_mul x NaN = NaN"
| "f64_mul (Fin a) PInf = (if a = 0 then NaN else if 0 < a then PInf else NInf)"
| "f64_mul (Fin a) NInf = (if a = 0 then NaN else if 0 < a then NInf else PInf)"
| "f64_mul PInf (Fin b) = (if b = 0 then NaN else if 0 < b then PInf else NInf)"
| "f64_mul NInf (Fin b) = (if b = 0 then NaN else if 0 < b then NInf else PInf)"
| "f64_mul PInf PInf = PInf"
| "f64_mul PInf NInf = NInf"
| "f64_mul NInf PInf = NInf"
| "f64_mul NInf NInf = PInf"

fun f64_add :: "f64 \<Rightarrow> f64 \<Rightarrow> f64" where
  "f64_add (Fin a) (Fin b) = f64_round (a + b)"
| "f64_add NaN y = NaN"
| "f64_add x NaN = NaN"
| "f64_add PInf NInf = NaN"
| "f64_add NInf PInf = NaN"
| "f64_add PInf y = PInf"
| "f64_add NInf y = NInf"
| "f64_add x PInf = PInf"
| "f64_add x NInf = NInf"

text \<open>Floating-point division does not panic in Go: a zero divisor gives an infinity or NaN.\<close>

fun f64_div :: "f64 \<Rightarrow> f64 \<Rightarrow> f64" where
  "f64_div (Fin a) (Fin b) =
     (if b = 0 then (if a = 0 then NaN else if 0 < a then PInf else NInf)
      else f64_round (a / b))"
| "f64_div NaN y = NaN"
| "f64_div x NaN = NaN"
| "f64_div (Fin a) PInf = Fin 0"
| "f64_div (Fin a) NInf = Fin 0"
| "f64_div PInf (Fin b) = (if 0 \<le> b then PInf else NInf)"
| "f64_div NInf (Fin b) = (if 0 \<le> b then NInf else PInf)"
| "f64_div PInf y = NaN"
| "f64_div NInf y = NaN"

text \<open>\<open>float64(n)\<close> for an integer \<open>n\<close>.\<close>

definition f64_of_int :: "int \<Rightarrow> f64" where
  "f64_of_int n = f64_round (of_int n)"

text \<open>
  \<open>int64(x)\<close> and \<open>int(x)\<close> for a float64 \<open>x\<close>: the fraction is discarded (truncation
  towards zero). For a value that does not fit, Go leaves the result to the
  implementation; this is what amd64 gives (\<open>CVTTSD2SQ\<close>'s integer indefinite).
\<close>

definition trunc_rat :: "rat \<Rightarrow> int" where
  "trunc_rat q = (if 0 \<le> q then \<lfloor>q\<rfloor> else - \<lfloor>- q\<rfloor>)"

definition f64_to_int64 :: "f64 \<Rightarrow> int" where
  "f64_to_int64 x =
     (case x of
        Fin q \<Rightarrow> (let t = trunc_rat q in if MinInt64 \<le> t \<and> t \<le> MaxInt64 then t else MinInt64)
      | PInf \<Rightarrow> MinInt64
      | NInf \<Rightarrow> MinInt64
      | NaN \<Rightarrow> MinInt64)"

subsection \<open>fetchWant and the byte estimator\<close>

text \<open>A channel is named by a number; \<open>make(chan fetchResult)\<close> takes the next free one.\<close>

type_synonym chan = nat

record fetchWant =
  startOffset :: int
  endOffset :: int
  estimatedBytesPerRecord :: int
  targetMaxBytes :: int
  result :: chan

text \<open>
  \<open>fetchWantFrom\<close>. The divisor is at least 1 after the \<open>max\<close>, so the integer division
  (\<open>sdiv\<close>: truncating, as Go's) cannot panic. The first argument is the fresh channel.
\<close>

definition fetchWantFrom :: "chan \<Rightarrow> int \<Rightarrow> int \<Rightarrow> int \<Rightarrow> fetchWant" where
  "fetchWantFrom c offset tmb ebpr =
     (let ebpr' = max ebpr 1;
          estimatedNumberOfRecords = max 1 (tmb sdiv ebpr')
      in \<lparr> startOffset = offset,
           endOffset = wrap64 (offset + estimatedNumberOfRecords),
           estimatedBytesPerRecord = ebpr',
           targetMaxBytes = tmb,
           result = c \<rparr>)"

definition Next :: "chan \<Rightarrow> fetchWant \<Rightarrow> fetchWant" where
  "Next c w =
     (fetchWantFrom c (endOffset w) (targetMaxBytes w) (estimatedBytesPerRecord w))
       \<lparr> estimatedBytesPerRecord := estimatedBytesPerRecord w \<rparr>"

definition overFetchBytesFactor :: f64 where
  "overFetchBytesFactor = f64_round (105 / 100)"

definition expectedBytes :: "fetchWant \<Rightarrow> int" where
  "expectedBytes w =
     f64_to_int64
       (f64_mul overFetchBytesFactor
          (f64_of_int (wrap64 (estimatedBytesPerRecord w * wrap64 (endOffset w - startOffset w)))))"

definition MaxBytes :: "fetchWant \<Rightarrow> int" where
  "MaxBytes w =
     (let fetchBytes = expectedBytes w
      in if MaxInt32 < fetchBytes \<or> fetchBytes < 0 then MaxInt32
         else wrap32 (max 1000000 fetchBytes))"

text \<open>
  \<open>UpdateBytesPerRecord\<close>. The constant \<open>currentEstimateWeight\<close> is \<open>0.8\<close>, and
  \<open>1 - currentEstimateWeight\<close> is a constant expression, evaluated exactly to \<open>0.2\<close>
  before it is converted to float64. The two products and the sum are rounded one by one
  (no fused multiply-add).
\<close>

definition currentEstimateWeight :: f64 where
  "currentEstimateWeight = f64_round (8 / 10)"

definition oneMinusCurrentEstimateWeight :: f64 where
  "oneMinusCurrentEstimateWeight = f64_round (1 - 8 / 10)"

definition UpdateBytesPerRecord :: "fetchWant \<Rightarrow> int \<Rightarrow> int \<Rightarrow> fetchWant" where
  "UpdateBytesPerRecord w lastFetchBytes lastFetchNumberOfRecords =
     (let actualBytesPerRecord = f64_div (f64_of_int lastFetchBytes) (f64_of_int lastFetchNumberOfRecords)
      in w \<lparr> estimatedBytesPerRecord :=
               f64_to_int64
                 (f64_add (f64_mul currentEstimateWeight (f64_of_int (estimatedBytesPerRecord w)))
                          (f64_mul oneMinusCurrentEstimateWeight actualBytesPerRecord)) \<rparr>)"

subsection \<open>Errors\<close>

text \<open>
  A Go error is the chain of the errors it wraps together with the text \<open>Error()\<close> gives.
  What a chain can hold, as far as the fetcher looks: one of the broker's error codes
  (the values of \<open>kerr\<close>), the package's own \<open>errUnknownPartitionLeader\<close>,
  \<open>context.Canceled\<close>, or an error of the client's type \<open>*kgo.ErrFirstReadEOF\<close>. The
  first three kinds are package-level values; \<open>errors.Is(err, target)\<close> with such a
  value as target looks for that very value along the chain.
\<close>

datatype err_target =
    OffsetOutOfRange
  | TopicAuthorizationFailed
  | UnknownTopicOrPartition
  | UnsupportedCompressionType
  | UnsupportedVersion
  | KafkaStorageError
  | UnknownTopicID
  | OffsetMovedToTieredStorage
  | NotLeaderForPartition
  | ReplicaNotAvailable
  | UnknownLeaderEpoch
  | FencedLeaderEpoch
  | LeaderNotAvailable
  | BrokerNotAvailable
  | UnknownPartitionLeader
  | ErrFirstReadEOF
  | ContextCanceled

datatype go_error = GoError (err_chain: "err_target list") (err_text: string)

definition errors_Is :: "go_error \<Rightarrow> err_target \<Rightarrow> bool" where
  "errors_Is e t = (t \<in> set (err_chain e))"

text \<open>
  \<open>errors.Is(err, &kgo.ErrFirstReadEOF{})\<close> is another matter: its target is a pointer
  the test itself has just allocated. \<open>errors.Is\<close> compares the errors of the chain
  with the target by identity (the type declares no \<open>Is\<close> method), and no error of any
  chain is that new pointer. The test is false whatever \<open>err\<close> wraps, also for an error
  that does wrap a \<open>*kgo.ErrFirstReadEOF\<close>.
\<close>

definition errors_Is_new_ErrFirstReadEOF :: "go_error \<Rightarrow> bool" where
  "errors_Is_new_ErrFirstReadEOF e = False"

text \<open>\<open>fmt.Errorf("<prefix>: %w", err)\<close>: the chain is kept, the text is prefixed.\<close>

definition Errorf_w :: "string \<Rightarrow> go_error \<Rightarrow> go_error" where
  "Errorf_w pre e = GoError (err_chain e) (pre @ err_text e)"

definition errUnknownPartitionLeader :: go_error where
  "errUnknownPartitionLeader = GoError [UnknownPartitionLeader] ''unknown partition leader''"

fun strings_Contains :: "string \<Rightarrow> string \<Rightarrow> bool" where
  "strings_Contains [] substr = (substr = [])"
| "strings_Contains (c # s) substr = (prefix substr (c # s) \<or> strings_Contains s substr)"

definition unknownBroker :: string where
  "unknownBroker = ''unknown broker''"

definition chosenBrokerDied :: string where
  "chosenBrokerDied = ''the internal broker struct chosen to issue this request has died--either the broker id is migrating or no longer exists''"

subsection \<open>The error classifier\<close>

text \<open>
  \<open>handleKafkaFetchErr\<close> returns the adjusted want together with the calls it made, in
  order, on its two collaborators: \<open>longBackoff.Wait()\<close> and
  \<open>refresher.ForceMetadataRefresh()\<close>. The third argument is what
  \<open>partitionStartOffset.CachedOffset()\<close> returns, which the function reads only in the
  \<open>OffsetOutOfRange\<close> case. The cases are tried in the order of the \<open>switch\<close>.
\<close>

datatype effect = Wait | ForceMetadataRefresh

definition handleKafkaFetchErr ::
  "go_error option \<Rightarrow> fetchWant \<Rightarrow> go_error + int \<Rightarrow> fetchWant \<times> effect list" where
  "handleKafkaFetchErr err fw cachedOffset =
     (case err of
        None \<Rightarrow> (fw, [])
      | Some e \<Rightarrow>
          let errString = err_text e in
          if errors_Is e OffsetOutOfRange then
            (case cachedOffset of
               Inl _ \<Rightarrow> (fw, [])
             | Inr partitionStart \<Rightarrow>
                 if startOffset fw < partitionStart then
                   if endOffset fw \<le> partitionStart
                   then (fw \<lparr> startOffset := endOffset fw \<rparr>, [])
                   else (fw \<lparr> startOffset := partitionStart \<rparr>, [])
                 else (fw, []))
          else if errors_Is e TopicAuthorizationFailed then (fw, [Wait])
          else if errors_Is e UnknownTopicOrPartition then (fw, [Wait])
          else if errors_Is e UnsupportedCompressionType then (fw, [Wait])
          else if errors_Is e UnsupportedVersion then (fw, [Wait])
          else if errors_Is e KafkaStorageError then (fw, [Wait])
          else if errors_Is e UnknownTopicID then (fw, [Wait])
          else if errors_Is e OffsetMovedToTieredStorage then (fw, [Wait])
          else if errors_Is e NotLeaderForPartition then (fw, [ForceMetadataRefresh, Wait])
          else if errors_Is e ReplicaNotAvailable then (fw, [ForceMetadataRefresh, Wait])
          else if errors_Is e UnknownLeaderEpoch then (fw, [ForceMetadataRefresh, Wait])
          else if errors_Is e FencedLeaderEpoch then (fw, [ForceMetadataRefresh, Wait])
          else if errors_Is e LeaderNotAvailable then (fw, [ForceMetadataRefresh, Wait])
          else if errors_Is e BrokerNotAvailable then (fw, [ForceMetadataRefresh, Wait])
          else if errors_Is e UnknownPartitionLeader then (fw, [ForceMetadataRefresh, Wait])
          else if errors_Is_new_ErrFirstReadEOF e then (fw, [Wait])
          else if strings_Contains errString unknownBroker then (fw, [])
          else if strings_Contains errString chosenBrokerDied then (fw, [])
          else if strings_Contains errString ''use of closed network connection'' then (fw, [])
          else if strings_Contains errString ''i/o timeout'' then (fw, [ForceMetadataRefresh, Wait])
          else (fw, [Wait]))"

subsection \<open>Fetch results and one round trip\<close>

record kgo_Record =
  Offset :: int
  Value :: "8 word list"

record FetchPartition =
  Records :: "kgo_Record list"
  Err :: "go_error option"
  HighWatermark :: int
  LogStartOffset :: int

record fetchResult = FetchPartition +
  fetchedBytes :: int

text \<open>\<open>fr.Merge(older)\<close>: the older records first, the byte counts added, the rest from \<open>fr\<close>.\<close>

definition Merge :: "fetchResult \<Rightarrow> fetchResult \<Rightarrow> fetchResult" where
  "Merge fr older =
     fr \<lparr> Records := Records older @ Records fr,
          fetchedBytes := wrap64 (fetchedBytes fr + fetchedBytes older) \<rparr>"

definition newEmptyFetchResult :: "go_error option \<Rightarrow> fetchResult" where
  "newEmptyFetchResult err =
     \<lparr> Records = [], Err = err, HighWatermark = 0, LogStartOffset = 0, fetchedBytes = 0 \<rparr>"

text \<open>The zero value \<open>fetchResult{}\<close>.\<close>

definition zeroFetchResult :: fetchResult where
  "zeroFetchResult = newEmptyFetchResult None"

type_synonym TopicID = "8 word list"

record FetchResponseTopicPartition =
  Partition :: int
  RecordBatches :: "8 word list"

record FetchResponseTopic =
  RespTopicID :: TopicID
  Partitions :: "FetchResponseTopicPartition list"

record FetchResponse =
  Topics :: "FetchResponseTopic list"

record FetchRequest =
  MinBytes :: int
  Version :: int
  MaxWaitMillis :: int
  ReqMaxBytes :: int
  ReqTopicID :: TopicID
  ReqPartition :: int
  FetchOffset :: int
  PartitionMaxBytes :: int
  CurrentLeaderEpoch :: int

text \<open>
  The fields of \<open>concurrentFetchers\<close> that never change, and the client library's
  decoder \<open>kgo.ProcessRespPartition\<close>, which is not part of this repository: given the
  offset asked for and the raw partition of the response it yields the decoded partition.
\<close>

record fetcherConfig =
  topicID :: TopicID
  partitionID :: int
  trackCompressedBytes :: bool
  maxBufferedBytesLimit :: int
  minBytesWaitMillis :: int
  ProcessRespPartition :: "int \<Rightarrow> FetchResponseTopicPartition \<Rightarrow> FetchPartition"

definition buildFetchRequest :: "fetcherConfig \<Rightarrow> fetchWant \<Rightarrow> int \<Rightarrow> FetchRequest" where
  "buildFetchRequest cfg fw leaderEpoch =
     \<lparr> MinBytes = 1, Version = 13, MaxWaitMillis = wrap32 (minBytesWaitMillis cfg),
       ReqMaxBytes = MaxBytes fw, ReqTopicID = topicID cfg, ReqPartition = partitionID cfg,
       FetchOffset = startOffset fw, PartitionMaxBytes = MaxBytes fw,
       CurrentLeaderEpoch = leaderEpoch \<rparr>"

text \<open>
  The two errors of \<open>assertResponseContainsPartition\<close> wrap nothing; of their text the
  fixed part is kept (the identifiers formatted into it are not).
\<close>

definition assertResponseContainsPartition ::
  "FetchResponse \<Rightarrow> TopicID \<Rightarrow> int \<Rightarrow> go_error option" where
  "assertResponseContainsPartition resp tid pid =
     (case Topics resp of
        [] \<Rightarrow> Some (GoError [] ''didn't find expected topic in fetch response'')
      | t # _ \<Rightarrow>
          if RespTopicID t \<noteq> tid
          then Some (GoError [] ''didn't find expected topic in fetch response'')
          else (case Partitions t of
                  [] \<Rightarrow> Some (GoError [] ''didn't find expected partition in fetch response'')
                | p # _ \<Rightarrow>
                    if Partition p \<noteq> pid
                    then Some (GoError [] ''didn't find expected partition in fetch response'')
                    else None))"

fun sumRecordLengths :: "kgo_Record list \<Rightarrow> int" where
  "sumRecordLengths [] = 0"
| "sumRecordLengths (r # rs) = int (length (Value r)) + sumRecordLengths rs"

text \<open>
  \<open>parseFetchResponse\<close>. After the check above the response has a first topic with a
  first partition, so the two index expressions of the source cannot panic; the model
  reaches them through the same \<open>case\<close>.
\<close>

definition parseFetchResponse :: "fetcherConfig \<Rightarrow> int \<Rightarrow> FetchResponse \<Rightarrow> fetchResult" where
  "parseFetchResponse cfg startOff resp =
     (case assertResponseContainsPartition resp (topicID cfg) (partitionID cfg) of
        Some err \<Rightarrow> newEmptyFetchResult (Some err)
      | None \<Rightarrow>
          (case Topics resp of
             [] \<Rightarrow> newEmptyFetchResult None
           | t # _ \<Rightarrow>
               (case Partitions t of
                  [] \<Rightarrow> newEmptyFetchResult None
                | rawPartitionResp # _ \<Rightarrow>
                    let partition = ProcessRespPartition cfg startOff rawPartitionResp;
                        fetchedBytes0 = int (length (RecordBatches rawPartitionResp));
                        fetchedBytes1 = (if \<not> trackCompressedBytes cfg
                                         then sumRecordLengths (Records partition)
                                         else fetchedBytes0)
                    in \<lparr> Records = Records partition, Err = Err partition,
                         HighWatermark = HighWatermark partition,
                         LogStartOffset = LogStartOffset partition,
                         fetchedBytes = fetchedBytes1 \<rparr>)))"

text \<open>
  \<open>fetchSingle\<close>. The environment gives what \<open>client.PartitionLeader\<close> returns (leader,
  epoch, error) and the broker, a function from the request to an error or a response.
\<close>

definition fetchSingle ::
  "fetcherConfig \<Rightarrow> fetchWant \<Rightarrow> int \<times> int \<times> go_error option \<Rightarrow>
   (FetchRequest \<Rightarrow> go_error + FetchResponse) \<Rightarrow> fetchResult" where
  "fetchSingle cfg fw leader broker =
     (case leader of (leaderID, leaderEpoch, err) \<Rightarrow>
        if err \<noteq> None \<or> (leaderID = - 1 \<and> leaderEpoch = - 1) then
          (case err of
             Some e \<Rightarrow> newEmptyFetchResult (Some (Errorf_w ''finding leader for partition: '' e))
           | None \<Rightarrow> newEmptyFetchResult (Some errUnknownPartitionLeader))
        else
          (case broker (buildFetchRequest cfg fw leaderEpoch) of
             Inl e \<Rightarrow>
               if errors_Is e ContextCanceled then newEmptyFetchResult None
               else newEmptyFetchResult (Some (Errorf_w ''fetching from kafka: '' e))
           | Inr resp \<Rightarrow> parseFetchResponse cfg (startOffset fw) resp))"

subsection \<open>The worker\<close>

text \<open>
  What a worker does that others can see, in order: atomic operations on the shared
  counters, the calls of the error classifier on its collaborators, the calls of
  \<open>UpdateBytesPerRecord\<close> with their two arguments, resets of the backoff, and sends on
  and closes of a want's result channel.
\<close>

datatype worker_event =
    AddBufferedRecords int
  | Effect effect
  | CasHWM int
  | UpdateCall int int
  | BackoffReset
  | Publish chan fetchResult
  | Close chan

text \<open>\<open>casHWM\<close>, as one atomic step on the watermark: it only ever grows.\<close>

definition casHWM :: "int \<Rightarrow> int \<Rightarrow> int" where
  "casHWM highWatermark newHWM = (if highWatermark < newHWM then newHWM else highWatermark)"

text \<open>Which case of the \<open>select\<close> with a \<open>default\<close> runs, and of the blocking one inside it.\<close>

datatype select_outcome = SelDone | SelSent | SelCtxDone | SelDefault

datatype blocking_outcome = BlkDone | BlkSent | BlkCtxDone

text \<open>
  What the environment decides during one attempt: whether the backoff is still ongoing
  at the loop test (it is not once the context is cancelled), the leader lookup and the
  broker, the cached partition start offset, whether \<open>r.done\<close> is closed when an attempt
  without records polls it, and the outcomes of the two \<open>select\<close>s.
\<close>

record attempt_env =
  ongoing :: bool
  leader :: "int \<times> int \<times> go_error option"
  broker :: "FetchRequest \<Rightarrow> go_error + FetchResponse"
  cachedOffset :: "go_error + int"
  doneClosed :: bool
  sel :: select_outcome
  selBlocking :: blocking_outcome

record attempt_out =
  out_want :: fetchWant
  out_previous :: fetchResult
  out_events :: "worker_event list"
  out_returned :: bool

text \<open>
  The part of an attempt after the merged result \<open>f\<close> has records: the \<open>select\<close> that
  tries to send it. \<open>evs\<close> are the events of the attempt so far.
\<close>

definition send_result ::
  "attempt_env \<Rightarrow> fetchWant \<Rightarrow> fetchResult \<Rightarrow> worker_event list \<Rightarrow> attempt_out" where
  "send_result env w f evs =
     (let closed = \<lparr> out_want = w, out_previous = f,
                      out_events = evs @ [Close (result w)], out_returned = True \<rparr>;
          sent = \<lparr> out_want = w, out_previous = zeroFetchResult,
                    out_events = evs @ [Publish (result w) f], out_returned = False \<rparr>;
          kept = \<lparr> out_want = w, out_previous = f, out_events = evs, out_returned = False \<rparr>
      in case sel env of
           SelDone \<Rightarrow> closed
         | SelSent \<Rightarrow> sent
         | SelCtxDone \<Rightarrow> kept
         | SelDefault \<Rightarrow>
             if endOffset w \<le> startOffset w then
               (case selBlocking env of
                  BlkDone \<Rightarrow> closed
                | BlkSent \<Rightarrow> sent
                | BlkCtxDone \<Rightarrow> kept)
             else kept)"

text \<open>One pass through the body of the attempt loop of \<open>run\<close>.\<close>

definition attempt ::
  "fetcherConfig \<Rightarrow> attempt_env \<Rightarrow> fetchWant \<Rightarrow> fetchResult \<Rightarrow> attempt_out" where
  "attempt cfg env w previousResult =
     (let f0 = fetchSingle cfg w (leader env) (broker env);
          evs0 = [AddBufferedRecords (int (length (Records f0)))];
          f = Merge f0 previousResult;
          handled = (if Err f \<noteq> None then handleKafkaFetchErr (Err f) w (cachedOffset env)
                     else (w, []));
          w1 = fst handled;
          evs1 = evs0 @ map Effect (snd handled);
          evs2 = (if 0 \<le> HighWatermark f then evs1 @ [CasHWM (HighWatermark f)] else evs1)
      in if Records f = [] then
           (if doneClosed env
            then \<lparr> out_want = w1, out_previous = f,
                   out_events = evs2 @ [Close (result w1)], out_returned = True \<rparr>
            else \<lparr> out_want = w1, out_previous = f, out_events = evs2, out_returned = False \<rparr>)
         else
           let w2 = w1 \<lparr> startOffset := wrap64 (Offset (last (Records f)) + 1) \<rparr>;
               w3 = UpdateBytesPerRecord w2 (fetchedBytes f) (int (length (Records f)));
               evs3 = evs2 @ [UpdateCall (fetchedBytes f) (int (length (Records f))), BackoffReset]
           in send_result env w3 f evs3)"

text \<open>
  The attempt loop for one want, over the environment's decisions for the attempts the
  observed run goes through. \<open>Running\<close>: the loop is still going when the decisions end;
  \<open>Returned\<close>: the worker saw \<open>r.done\<close>, closed the channel and left \<open>run\<close>;
  \<open>WantDone\<close>: the loop test failed, the channel was closed and the worker takes the next
  want.
\<close>

datatype worker_status = Running | Returned | WantDone

fun run_want ::
  "fetcherConfig \<Rightarrow> attempt_env list \<Rightarrow> fetchWant \<Rightarrow> fetchResult \<Rightarrow>
   worker_event list \<times> worker_status" where
  "run_want cfg [] w previousResult = ([], Running)"
| "run_want cfg (env # envs) w previousResult =
     (if ongoing env \<and> startOffset w < endOffset w then
        (let out = attempt cfg env w previousResult
         in if out_returned out then (out_events out, Returned)
            else (let rest = run_want cfg envs (out_want out) (out_previous out)
                  in (out_events out @ fst rest, snd rest)))
      else ([Close (result w)], WantDone))"

subsection \<open>The dispatcher\<close>

text \<open>
  The variables of the loop of \<open>start\<close>. \<open>inflightBytes\<close> is the counter behind
  \<open>inflight.bytes\<close> (the fetcher's \<open>bufferedFetchedBytes\<close>); \<open>readyBufferedResults\<close> says
  whether that channel variable is non-nil; \<open>nextChan\<close> is the next free channel.
\<close>

record dispatcher =
  nextFetch :: fetchWant
  inflightWants :: "fetchWant list"
  inflightBytes :: int
  bufferedResult :: fetchResult
  readyBufferedResults :: bool
  nextChan :: chan

definition initialBytesPerRecord :: int where
  "initialBytesPerRecord = 10000"

text \<open>The state \<open>start\<close> enters its loop with; the division panics for no workers.\<close>

definition start_init :: "fetcherConfig \<Rightarrow> int \<Rightarrow> int \<Rightarrow> int \<Rightarrow> dispatcher option" where
  "start_init cfg startOff concurrency bytes =
     (if concurrency = 0 then None
      else Some \<lparr> nextFetch = fetchWantFrom 0 startOff
                                 (maxBufferedBytesLimit cfg sdiv concurrency) initialBytesPerRecord,
                  inflightWants = [], inflightBytes = bytes,
                  bufferedResult = zeroFetchResult, readyBufferedResults = False,
                  nextChan = 1 \<rparr>)"

definition peekNextResult :: "dispatcher \<Rightarrow> chan option" where
  "peekNextResult d = (case inflightWants d of [] \<Rightarrow> None | w # _ \<Rightarrow> Some (result w))"

definition inflight_append :: "fetchWant \<Rightarrow> dispatcher \<Rightarrow> dispatcher" where
  "inflight_append w d =
     d \<lparr> inflightBytes := wrap64 (inflightBytes d + MaxBytes w),
         inflightWants := inflightWants d @ [w] \<rparr>"

definition removeNextResult :: "dispatcher \<Rightarrow> dispatcher" where
  "removeNextResult d =
     (case inflightWants d of
        [] \<Rightarrow> d
      | h # rest \<Rightarrow> d \<lparr> inflightBytes := wrap64 (inflightBytes d - MaxBytes h),
                         inflightWants := rest \<rparr>)"

text \<open>The channel \<open>refillBufferedResult\<close> of an iteration (\<open>None\<close> for nil).\<close>

definition refillBufferedResult :: "dispatcher \<Rightarrow> chan option" where
  "refillBufferedResult d = (if readyBufferedResults d then None else peekNextResult d)"

text \<open>Whether \<open>dispatchNextWant\<close> is the channel of wants (and not nil) in an iteration.\<close>

definition dispatchNextWant :: "fetcherConfig \<Rightarrow> int \<Rightarrow> dispatcher \<Rightarrow> bool" where
  "dispatchNextWant cfg highWatermark d =
     (let wouldExceedInflightBytesLimit =
            maxBufferedBytesLimit cfg < wrap64 (inflightBytes d + MaxBytes (nextFetch d))
      in length (inflightWants d) = 0 \<or>
         (\<not> wouldExceedInflightBytesLimit \<and> startOffset (nextFetch d) \<le> highWatermark))"

text \<open>
  The cases of the \<open>select\<close>. A receive on the head want's channel yields a result or
  finds the channel closed (\<open>None\<close>). A case on a nil channel is never ready.
\<close>

datatype start_case =
    CaseDone
  | CaseCtxDone
  | CaseDispatch
  | CaseRefill "fetchResult option"
  | CaseDeliver

datatype start_output = Dispatched fetchWant | Delivered fetchResult

datatype start_outcome = Return | Continue dispatcher "start_output list" | NotReady

definition start_iteration ::
  "fetcherConfig \<Rightarrow> int \<Rightarrow> dispatcher \<Rightarrow> start_case \<Rightarrow> start_outcome" where
  "start_iteration cfg highWatermark d c =
     (case c of
        CaseDone \<Rightarrow> Return
      | CaseCtxDone \<Rightarrow> Return
      | CaseDispatch \<Rightarrow>
          if dispatchNextWant cfg highWatermark d
          then Continue
                 ((inflight_append (nextFetch d) d)
                    \<lparr> nextFetch := Next (nextChan d) (nextFetch d), nextChan := Suc (nextChan d) \<rparr>)
                 [Dispatched (nextFetch d)]
          else NotReady
      | CaseRefill received \<Rightarrow>
          (case refillBufferedResult d of
             None \<Rightarrow> NotReady
           | Some _ \<Rightarrow>
               (case received of
                  None \<Rightarrow> Continue (removeNextResult d) []
                | Some res \<Rightarrow>
                    Continue
                      (d \<lparr> nextFetch := UpdateBytesPerRecord (nextFetch d) (fetchedBytes res)
                                          (int (length (Records res))),
                           bufferedResult := res,
                           readyBufferedResults := True \<rparr>)
                      []))
      | CaseDeliver \<Rightarrow>
          if readyBufferedResults d
          then Continue (d \<lparr> readyBufferedResults := False, bufferedResult := zeroFetchResult \<rparr>)
                 [Delivered (bufferedResult d)]
          else NotReady)"

subsection \<open>PollFetches\<close>

record concurrentFetchers =
  lastReturnedRecord :: int
  bufferedFetchedRecords :: int
  fetchedDiscardedRecordBytes :: int

fun recordIndexAfterOffset :: "kgo_Record list \<Rightarrow> int \<Rightarrow> nat" where
  "recordIndexAfterOffset [] offset = 0"
| "recordIndexAfterOffset (r # rs) offset =
     (if offset < Offset r then 0 else Suc (recordIndexAfterOffset rs offset))"

text \<open>
  Of \<open>recordOrderedFetchTelemetry\<close>, the bytes it adds to the discarded-bytes counter:
  the value lengths of the records before the first returned one.
\<close>

definition doubleFetchedBytes :: "kgo_Record list \<Rightarrow> nat \<Rightarrow> int" where
  "doubleFetchedBytes records firstReturnedRecordIndex =
     sumRecordLengths (take firstReturnedRecordIndex records)"

text \<open>
  \<open>PollFetches\<close>: either the caller's context is done first, or a result arrives on
  \<open>orderedFetches\<close>. It returns the partitions handed to the caller (none, or one).
\<close>

datatype poll_case = PollCtxDone | PollFetched fetchResult

definition PollFetches ::
  "concurrentFetchers \<Rightarrow> poll_case \<Rightarrow> FetchPartition list \<times> concurrentFetchers" where
  "PollFetches r c =
     (case c of
        PollCtxDone \<Rightarrow> ([], r)
      | PollFetched f \<Rightarrow>
          let firstUnreturnedRecordIdx = recordIndexAfterOffset (Records f) (lastReturnedRecord r);
              records = drop firstUnreturnedRecordIdx (Records f);
              r1 = r \<lparr> bufferedFetchedRecords :=
                          wrap64 (bufferedFetchedRecords r - int (length (Records f))),
                        fetchedDiscardedRecordBytes :=
                          fetchedDiscardedRecordBytes r
                            + doubleFetchedBytes (Records f) firstUnreturnedRecordIdx \<rparr>;
              r2 = (if records \<noteq> [] then r1 \<lparr> lastReturnedRecord := Offset (last records) \<rparr>
                    else r1)
          in ([\<lparr> Records = records, Err = Err f, HighWatermark = HighWatermark f,
                  LogStartOffset = LogStartOffset f \<rparr>], r2))"

text \<open>A consumer polling again and again: all the partitions it is handed, in order.\<close>

fun poll_all ::
  "concurrentFetchers \<Rightarrow> poll_case list \<Rightarrow> FetchPartition list \<times> concurrentFetchers" where
  "poll_all r [] = ([], r)"
| "poll_all r (c # cs) =
     (let p = PollFetches r c; rest = poll_all (snd p) cs
      in (fst p @ fst rest, snd rest))"

definition delivered_offsets :: "FetchPartition list \<Rightarrow> int list" where
  "delivered_offsets ps = map Offset (concat (map Records ps))"

subsection \<open>Auxiliary notions for the properties\<close>

text \<open>
  The spec's words for what \<open>PollFetches\<close> hands over: the batch without its leading
  records whose offset is at most the last offset already returned.
\<close>

definition records_after_last :: "concurrentFetchers \<Rightarrow> fetchResult \<Rightarrow> kgo_Record list" where
  "records_after_last r f = dropWhile (\<lambda>x. Offset x \<le> lastReturnedRecord r) (Records f)"

text \<open>Events of a worker by kind, and what every send and every estimator call must satisfy.\<close>

definition is_Publish :: "worker_event \<Rightarrow> bool" where
  "is_Publish x = (case x of Publish c f \<Rightarrow> True | _ \<Rightarrow> False)"

definition is_Effect :: "worker_event \<Rightarrow> bool" where
  "is_Effect x = (case x of Effect e \<Rightarrow> True | _ \<Rightarrow> False)"

definition sends_records :: "worker_event \<Rightarrow> bool" where
  "sends_records x =
     (case x of
        Publish c f \<Rightarrow> Records f \<noteq> []
      | UpdateCall b n \<Rightarrow> 1 \<le> n
      | _ \<Rightarrow> True)"

text \<open>
  What the fetcher relies on the client library's decoder for: the records it yields are
  in strictly increasing offset order, none is before the offset asked for, and their
  offsets are \<open>int64\<close> values below the largest. And what the worker then keeps true of
  the records of a result it has not sent yet: in order and below the want's start offset.
\<close>

definition decoder_in_order :: "fetcherConfig \<Rightarrow> bool" where
  "decoder_in_order cfg =
     (\<forall>off raw.
        sorted_wrt (<) (map Offset (Records (ProcessRespPartition cfg off raw)))
        \<and> list_all (\<lambda>x. off \<le> Offset x \<and> MinInt64 \<le> Offset x \<and> Offset x < MaxInt64)
             (Records (ProcessRespPartition cfg off raw)))"

definition in_order_below :: "int \<Rightarrow> kgo_Record list \<Rightarrow> bool" where
  "in_order_below bound rs =
     (sorted_wrt (<) (map Offset rs)
      \<and> list_all (\<lambda>x. MinInt64 \<le> Offset x \<and> Offset x < MaxInt64 \<and> Offset x < bound) rs)"

subsection \<open>Concrete inputs\<close>

text \<open>
  A partition holding three records at offsets 0, 1 and 2, a broker that answers every
  request with all of them (a fetch is bounded in bytes, not by the end offset of the
  want), and a want for the offsets 0 and 1.
\<close>

definition example_records :: "kgo_Record list" where
  "example_records =
     [\<lparr> Offset = 0, Value = [1, 2] \<rparr>, \<lparr> Offset = 1, Value = [3, 4] \<rparr>,
      \<lparr> Offset = 2, Value = [5, 6] \<rparr>]"

definition example_config :: fetcherConfig where
  "example_config =
     \<lparr> topicID = [1], partitionID = 0, trackCompressedBytes = False,
       maxBufferedBytesLimit = 100000000, minBytesWaitMillis = 5000,
       ProcessRespPartition =
         (\<lambda>off raw. \<lparr> Records = filter (\<lambda>r. off \<le> Offset r) example_records, Err = None,
                       HighWatermark = 3, LogStartOffset = 0 \<rparr>) \<rparr>"

definition example_response :: FetchResponse where
  "example_response =
     \<lparr> Topics = [\<lparr> RespTopicID = [1],
                    Partitions = [\<lparr> Partition = 0, RecordBatches = [0, 0, 0, 0, 0, 0] \<rparr>] \<rparr>] \<rparr>"

definition example_env :: attempt_env where
  "example_env =
     \<lparr> ongoing = True, leader = (1, 5, None), broker = (\<lambda>req. Inr example_response),
       cachedOffset = Inr 0, doneClosed = False, sel = SelSent, selBlocking = BlkSent \<rparr>"

definition example_result :: fetchResult where
  "example_result =
     \<lparr> Records = example_records, Err = None, HighWatermark = 3, LogStartOffset = 0,
       fetchedBytes = 6 \<rparr>"

definition example_want :: fetchWant where
  "example_want =
     \<lparr> startOffset = 0, endOffset = 2, estimatedBytesPerRecord = 10, targetMaxBytes = 20,
       result = 7 \<rparr>"

text \<open>A want whose estimate times its range is \<open>2\<^sup>6\<^sup>3\<close>, one more than \<open>int64\<close> holds.\<close>

definition overflow_want :: fetchWant where
  "overflow_want =
     \<lparr> startOffset = 0, endOffset = 4611686018427387904, estimatedBytesPerRecord = 2,
       targetMaxBytes = 100, result = 0 \<rparr>"

text \<open>The same broker when the context is cancelled while the request is being sent.\<close>

definition cancelled_env :: attempt_env where
  "cancelled_env =
     example_env \<lparr> broker := (\<lambda>req. Inl (GoError [ContextCanceled] ''context canceled'')) \<rparr>"

text \<open>
  A partition whose log now starts at offset 20: every fetch below it is answered with
  \<open>OFFSET_OUT_OF_RANGE\<close> and no records. The want is the one of the spec's scenario.
\<close>

definition offsetOutOfRange :: go_error where
  "offsetOutOfRange = GoError [OffsetOutOfRange] ''OFFSET_OUT_OF_RANGE''"

definition expired_config :: fetcherConfig where
  "expired_config =
     example_config
       \<lparr> ProcessRespPartition :=
           (\<lambda>off raw. \<lparr> Records = [], Err = Some offsetOutOfRange, HighWatermark = - 1,
                         LogStartOffset = - 1 \<rparr>) \<rparr>"

definition expired_env :: attempt_env where
  "expired_env = example_env \<lparr> cachedOffset := Inr 20 \<rparr>"

definition expired_want :: fetchWant where
  "expired_want =
     \<lparr> startOffset = 0, endOffset = 10, estimatedBytesPerRecord = 10, targetMaxBytes = 100,
       result = 7 \<rparr>"




text \<open>A dispatcher with one want inflight and the example want next.\<close>

definition example_dispatcher :: dispatcher where
  "example_dispatcher =
     \<lparr> nextFetch = example_want, inflightWants = [expired_want], inflightBytes = 1000000,
       bufferedResult = zeroFetchResult, readyBufferedResults = False, nextChan = 8 \<rparr>"

text \<open>A consumer that was last handed offset 4 and polls three times.\<close>

definition example_fetcher :: concurrentFetchers where
  "example_fetcher =
     \<lparr> lastReturnedRecord = 4, bufferedFetchedRecords = 6, fetchedDiscardedRecordBytes = 0 \<rparr>"

definition example_polls :: "poll_case list" where
  "example_polls =
     [PollFetched \<lparr> Records = [\<lparr> Offset = 3, Value = [1] \<rparr>, \<lparr> Offset = 4, Value = [2] \<rparr>,
                              \<lparr> Offset = 5, Value = [3] \<rparr>, \<lparr> Offset = 6, Value = [4] \<rparr>],
                   Err = None, HighWatermark = 8, LogStartOffset = 0, fetchedBytes = 4 \<rparr>,
      PollCtxDone,
      PollFetched \<lparr> Records = [\<lparr> Offset = 6, Value = [4] \<rparr>, \<lparr> Offset = 7, Value = [5] \<rparr>],
                   Err = None, HighWatermark = 8, LogStartOffset = 0, fetchedBytes = 2 \<rparr>]"

section \<open>Properties\<close>

subsection \<open>Machine integers inside their range\<close>

lemma wrap32_id: "- 2147483648 \<le> x \<Longrightarrow> x < 2147483648 \<Longrightarrow> wrap32 x = x"
  by (simp add: wrap32_def signed_take_bit_int_eq_self)

lemma wrap64_id: "MinInt64 \<le> x \<Longrightarrow> x \<le> MaxInt64 \<Longrightarrow> wrap64 x = x"
  by (simp add: wrap64_def MinInt64_def MaxInt64_def signed_take_bit_int_eq_self)

subsection \<open>Rounding to float64\<close>

text \<open>
  \<open>ilog2\<close> is the binary exponent, so \<open>f64_round\<close> keeps 53 significant bits; an
  integer below \<open>2\<^sup>5\<^sup>3\<close> converts exactly; a number below \<open>2\<^sup>K\<close> moves by at most
  \<open>2\<^sup>K\<^sup>-\<^sup>5\<^sup>3\<close>; a number that is at least 1 does not round to zero.
\<close>

lemma pow2_powi: "pow2 k = 2 powi k"
  by (simp add: pow2_def power_int_def power_one_over inverse_eq_divide)

lemma pow2_pos [simp]: "0 < pow2 k"
  by (simp add: pow2_def)

lemma pow2_nonzero [simp]: "pow2 k \<noteq> 0"
  by (simp add: pow2_def)

lemma pow2_add: "pow2 (a + b) = pow2 a * pow2 b"
  by (simp add: pow2_powi power_int_add)

lemma pow2_diff: "pow2 (a - b) = pow2 a / pow2 b"
  by (simp add: pow2_powi power_int_diff)

lemma pow2_mono: "a \<le> b \<Longrightarrow> pow2 a \<le> pow2 b"
  by (simp add: pow2_powi power_int_increasing)

lemma pow2_strict_mono: "a < b \<Longrightarrow> pow2 a < pow2 b"
  by (simp add: pow2_powi power_int_strict_increasing)

lemma pow2_less_cancel: "pow2 a < pow2 b \<Longrightarrow> a < b"
  using pow2_mono [of b a] by (cases "a < b") auto

lemma pow2_nat: "0 \<le> k \<Longrightarrow> pow2 k = 2 ^ nat k"
  by (simp add: pow2_def)

lemma bitlen_pow2_bounds:
  assumes "0 < a"
  shows "pow2 (bitlen a - 1) \<le> of_int a" and "of_int a < pow2 (bitlen a)"
proof -
  from assms have b: "1 \<le> bitlen a"
    by (simp add: bitlen_alt_def)
  from bitlen_bounds [OF assms]
  have lo: "2 ^ nat (bitlen a - 1) \<le> a" and hi: "a < 2 ^ nat (bitlen a)"
    by simp_all
  from lo have "(of_int (2 ^ nat (bitlen a - 1)) :: rat) \<le> of_int a"
    by (simp only: of_int_le_iff)
  with b show "pow2 (bitlen a - 1) \<le> of_int a"
    by (simp add: pow2_nat)
  from hi have "(of_int a :: rat) < of_int (2 ^ nat (bitlen a))"
    by (simp only: of_int_less_iff)
  with b show "of_int a < pow2 (bitlen a)"
    by (simp add: pow2_nat)
qed

lemma ilog2_bounds:
  assumes "0 < q"
  shows "pow2 (ilog2 q) \<le> q" and "q < pow2 (ilog2 q + 1)"
proof -
  obtain a b where ab: "quotient_of q = (a, b)"
    by (cases "quotient_of q")
  then have b: "0 < b" and q: "q = of_int a / of_int b"
    by (simp_all add: quotient_of_denom_pos quotient_of_div)
  with assms have a: "0 < a"
    by (simp add: zero_less_divide_iff)
  define l where "l = bitlen a - bitlen b"
  note A = bitlen_pow2_bounds [OF a] and B = bitlen_pow2_bounds [OF b]
  have "q < pow2 (bitlen a) / pow2 (bitlen b - 1)"
    unfolding q using A(2) B(1) a b
    by (intro frac_less) simp_all
  also have "\<dots> = pow2 (l + 1)"
    by (simp add: l_def flip: pow2_diff) (simp add: algebra_simps)
  finally have up: "q < pow2 (l + 1)" .
  have "pow2 (l - 1) = pow2 (bitlen a - 1) / pow2 (bitlen b)"
    by (simp add: l_def flip: pow2_diff) (simp add: algebra_simps)
  also have "\<dots> < q"
    unfolding q using A(1) B(2) a b
    by (intro frac_less2) simp_all
  finally have low: "pow2 (l - 1) < q" .
  have eq: "ilog2 q = (if pow2 l \<le> q then l else l - 1)"
    by (simp add: ilog2_def ab l_def Let_def)
  show "pow2 (ilog2 q) \<le> q"
    using low by (simp add: eq less_imp_le)
  show "q < pow2 (ilog2 q + 1)"
    using up by (simp add: eq not_le)
qed

lemma ilog2_unique:
  assumes "pow2 l \<le> q" and "q < pow2 (l + 1)"
  shows "ilog2 q = l"
proof -
  have "0 < pow2 l" by simp
  with assms have q: "0 < q" by linarith
  note I = ilog2_bounds [OF q]
  from I(1) assms(2) have "pow2 (ilog2 q) < pow2 (l + 1)" by linarith
  then have "ilog2 q < l + 1" by (rule pow2_less_cancel)
  moreover from assms(1) I(2) have "pow2 l < pow2 (ilog2 q + 1)" by linarith
  then have "l < ilog2 q + 1" by (rule pow2_less_cancel)
  ultimately show ?thesis by simp
qed

text \<open>Rounding, given the binary exponent of the argument.\<close>

lemma f64_round_at:
  assumes "pow2 l \<le> \<bar>q\<bar>" and "\<bar>q\<bar> < pow2 (l + 1)"
  shows "f64_round q =
     (let e = max (l - 52) (- 1074);
          v = of_int (rne (\<bar>q\<bar> / pow2 e)) * pow2 e
      in if pow2 1024 \<le> v then (if 0 < q then PInf else NInf)
         else Fin (sgn q * v))"
proof -
  have "0 < pow2 l" by simp
  with assms have "0 < \<bar>q\<bar>" by linarith
  then have "q \<noteq> 0" by simp
  then show ?thesis
    by (simp add: f64_round_def ilog2_unique [OF assms])
qed

lemma floor_numeral_div [simp]:
  "\<lfloor>(numeral a :: rat) / numeral b\<rfloor> = numeral a div numeral b"
  using floor_divide_of_int_eq [of "numeral a" "numeral b", where ?'a = rat] by simp

lemma c08: "currentEstimateWeight = Fin (3602879701896397 / 4503599627370496)"
  unfolding currentEstimateWeight_def
  by (subst f64_round_at [where l = "- 1"]) (simp_all add: pow2_def rne_def Let_def)

lemma c02: "oneMinusCurrentEstimateWeight = Fin (3602879701896397 / 18014398509481984)"
  unfolding oneMinusCurrentEstimateWeight_def
  by (subst f64_round_at [where l = "- 3"]) (simp_all add: pow2_def rne_def Let_def)

lemma c105: "overFetchBytesFactor = Fin (4728779608739021 / 4503599627370496)"
  unfolding overFetchBytesFactor_def
  by (subst f64_round_at [where l = "0"]) (simp_all add: pow2_def rne_def Let_def)

lemma rne_of_int [simp]: "rne (of_int k) = k"
  by (simp add: rne_def)

lemma rne_error: "\<bar>of_int (rne y) - y\<bar> \<le> 1 / 2"
proof -
  have "of_int \<lfloor>y\<rfloor> \<le> y" "y < of_int \<lfloor>y\<rfloor> + 1"
    by linarith+
  then show ?thesis
    by (auto simp add: rne_def Let_def abs_le_iff)
qed

lemma rne_nonneg: "0 \<le> y \<Longrightarrow> 0 \<le> rne y"
  by (auto simp add: rne_def Let_def)

lemma f64_round_exact:
  assumes "q \<noteq> 0" and "\<bar>q\<bar> < pow2 1024"
    and "\<bar>q\<bar> / pow2 (max (ilog2 \<bar>q\<bar> - 52) (- 1074)) = of_int m"
  shows "f64_round q = Fin q"
proof -
  define e where "e = max (ilog2 \<bar>q\<bar> - 52) (- 1074)"
  from assms(3) have r: "rne (\<bar>q\<bar> / pow2 e) = m"
    by (simp add: e_def)
  from assms(3) have v: "of_int m * pow2 e = \<bar>q\<bar>"
    by (simp add: e_def field_simps)
  have s: "sgn q * \<bar>q\<bar> = q"
    by (simp add: sgn_if)
  from assms(1) have "f64_round q =
      (let e = max (ilog2 \<bar>q\<bar> - 52) (- 1074);
           v = of_int (rne (\<bar>q\<bar> / pow2 e)) * pow2 e
       in if pow2 1024 \<le> v then (if 0 < q then PInf else NInf) else Fin (sgn q * v))"
    by (simp only: f64_round_def if_False)
  also have "\<dots> = (if pow2 1024 \<le> \<bar>q\<bar> then (if 0 < q then PInf else NInf) else Fin q)"
    unfolding Let_def e_def [symmetric] r v s ..
  also from assms(2) have "\<dots> = Fin q"
    by (simp only: not_le [symmetric] if_False)
  finally show ?thesis .
qed

lemma f64_of_int_exact:
  assumes "\<bar>k\<bar> < 2 ^ 53"
  shows "f64_of_int k = Fin (of_int k)"
proof (cases "k = 0")
  case True
  then show ?thesis
    by (simp add: f64_of_int_def f64_round_def)
next
  case False
  define q :: rat where "q = of_int k"
  define l where "l = ilog2 \<bar>q\<bar>"
  from False have pos: "0 < \<bar>q\<bar>" and one: "1 \<le> \<bar>q\<bar>"
    by (simp_all add: q_def flip: of_int_abs)
  from assms have "\<bar>q\<bar> < of_int (2 ^ 53)"
    unfolding q_def of_int_abs [symmetric] of_int_less_iff .
  then have up: "\<bar>q\<bar> < pow2 53"
    by (simp add: pow2_def)
  note I = ilog2_bounds [OF pos, folded l_def]
  from I(1) up have "pow2 l < pow2 53" by linarith
  then have l53: "l < 53" by (rule pow2_less_cancel)
  from I(2) one have "pow2 0 < pow2 (l + 1)" by (simp add: pow2_def)
  then have l0: "0 \<le> l" using pow2_less_cancel [of 0 "l + 1"] by simp
  from l0 l53 have e: "max (l - 52) (- 1074) = l - 52"
    by simp
  from l53 have "pow2 (l - 52) = 1 / 2 ^ nat (52 - l)"
    by (simp add: pow2_def)
  then have "\<bar>q\<bar> / pow2 (l - 52) = of_int (\<bar>k\<bar> * 2 ^ nat (52 - l))"
    by (simp add: q_def)
  then have int: "\<bar>q\<bar> / pow2 (max (ilog2 \<bar>q\<bar> - 52) (- 1074)) = of_int (\<bar>k\<bar> * 2 ^ nat (52 - l))"
    unfolding l_def [symmetric] e .
  from up have fin: "\<bar>q\<bar> < pow2 1024"
    using pow2_strict_mono [of 53 1024] by linarith
  from False have "q \<noteq> 0"
    by (simp add: q_def)
  then have "f64_round q = Fin q"
    using fin int by (rule f64_round_exact)
  then show ?thesis
    by (simp add: f64_of_int_def q_def)
qed

lemma f64_round_finite:
  assumes "0 < q" and "q < pow2 K" and "0 \<le> K" and "K \<le> 1023"
  defines "e \<equiv> max (ilog2 q - 52) (- 1074)"
  defines "v \<equiv> of_int (rne (q / pow2 e)) * pow2 e"
  shows "f64_round q = Fin v" and "0 \<le> v" and "\<bar>v - q\<bar> \<le> pow2 (K - 53)"
proof -
  from assms(1) have abs: "\<bar>q\<bar> = q" and nz: "q \<noteq> 0"
    by simp_all
  note I = ilog2_bounds [OF assms(1)]
  from I(1) assms(2) have "pow2 (ilog2 q) < pow2 K" by linarith
  then have "ilog2 q < K" by (rule pow2_less_cancel)
  with assms(3) have eK: "e \<le> K - 53"
    by (simp add: e_def)
  have "0 \<le> q / pow2 e"
    using assms(1) by (simp add: less_imp_le)
  then have "0 \<le> rne (q / pow2 e)"
    by (rule rne_nonneg)
  then show v0: "0 \<le> v"
    by (simp add: v_def less_imp_le)
  have "\<bar>v - q\<bar> = \<bar>of_int (rne (q / pow2 e)) - q / pow2 e\<bar> * pow2 e"
  proof -
    have "v - q = (of_int (rne (q / pow2 e)) - q / pow2 e) * pow2 e"
      by (simp add: v_def field_simps)
    then show ?thesis
      by (simp add: abs_mult less_imp_le)
  qed
  also have "\<dots> \<le> 1 / 2 * pow2 e"
    using rne_error [of "q / pow2 e"]
    by (intro mult_right_mono) (simp_all add: less_imp_le)
  also have "\<dots> \<le> pow2 e"
    using pow2_pos [of e] by simp
  also have "\<dots> \<le> pow2 (K - 53)"
    using eK by (rule pow2_mono)
  finally show err: "\<bar>v - q\<bar> \<le> pow2 (K - 53)" .
  have "pow2 (K - 53) \<le> pow2 K"
    by (rule pow2_mono) simp
  with err assms(2) have "v < pow2 K + pow2 K"
    by linarith
  also have "\<dots> = pow2 (K + 1)"
  proof -
    have "pow2 1 = 2" by (simp add: pow2_def)
    then have "pow2 (K + 1) = pow2 K * 2" by (simp only: pow2_add)
    then show ?thesis by simp
  qed
  also have "\<dots> \<le> pow2 1024"
    using assms(4) by (intro pow2_mono) simp
  finally have fin: "\<not> pow2 1024 \<le> v"
    by simp
  from nz have "f64_round q =
      (let e = max (ilog2 \<bar>q\<bar> - 52) (- 1074);
           v = of_int (rne (\<bar>q\<bar> / pow2 e)) * pow2 e
       in if pow2 1024 \<le> v then (if 0 < q then PInf else NInf) else Fin (sgn q * v))"
    by (simp only: f64_round_def if_False)
  also have "\<dots> = (if pow2 1024 \<le> v then (if 0 < q then PInf else NInf) else Fin (sgn q * v))"
    unfolding Let_def abs e_def [symmetric] v_def [symmetric] ..
  also from fin assms(1) have "\<dots> = Fin v"
    by simp
  finally show "f64_round q = Fin v" .
qed

lemma f64_round_near:
  assumes "0 \<le> q" and "q < pow2 K" and "0 \<le> K" and "K \<le> 1023"
  shows "\<exists>r. f64_round q = Fin r \<and> 0 \<le> r \<and> \<bar>r - q\<bar> \<le> pow2 (K - 53)"
proof (cases "q = 0")
  case True
  then show ?thesis
    by (simp add: f64_round_def less_imp_le)
next
  case False
  with assms(1) have "0 < q"
    by simp
  from f64_round_finite [OF this assms(2-4)] show ?thesis
    by blast
qed

text \<open>A number that is at least 1 does not round to zero.\<close>

lemma f64_round_pos:
  assumes "1 \<le> q" and "q < pow2 K" and "0 \<le> K" and "K \<le> 1023"
  shows "\<exists>r. f64_round q = Fin r \<and> 0 < r"
proof -
  from assms(1) have pos: "0 < q"
    by simp
  define e where "e = max (ilog2 q - 52) (- 1074)"
  note I = ilog2_bounds [OF pos]
  from I(2) assms(1) have "pow2 0 < pow2 (ilog2 q + 1)"
    by (simp add: pow2_def)
  then have "0 \<le> ilog2 q"
    using pow2_less_cancel [of 0 "ilog2 q + 1"] by simp
  then have e: "e = ilog2 q - 52"
    by (simp add: e_def)
  have "pow2 52 = pow2 (ilog2 q) / pow2 e"
    unfolding e pow2_diff [symmetric] by simp
  also have "\<dots> \<le> q / pow2 e"
    using I(1) by (simp add: divide_right_mono less_imp_le)
  finally have "pow2 52 \<le> q / pow2 e" .
  moreover have "pow2 52 = 4503599627370496"
    by (simp add: pow2_def)
  ultimately have "1 \<le> q / pow2 e"
    by linarith
  then have "1 \<le> \<lfloor>q / pow2 e\<rfloor>"
    by (simp add: le_floor_iff)
  moreover have "\<lfloor>q / pow2 e\<rfloor> \<le> rne (q / pow2 e)"
    by (simp add: rne_def Let_def)
  ultimately have "0 < rne (q / pow2 e)"
    by linarith
  then have "0 < of_int (rne (q / pow2 e)) * pow2 e"
    by simp
  with f64_round_finite(1) [OF pos assms(2-4), folded e_def] show ?thesis
    by blast
qed

lemma f64_of_int_pos:
  assumes "1 \<le> n" and "n \<le> MaxInt64"
  shows "\<exists>r. f64_of_int n = Fin r \<and> 0 < r"
proof -
  from assms have "(1 :: rat) \<le> of_int n" "(of_int n :: rat) < pow2 64"
    by (simp_all add: MaxInt64_def pow2_def)
  from f64_round_pos [OF this] show ?thesis
    by (simp add: f64_of_int_def)
qed

lemma f64_round_near41:
  assumes "0 \<le> q" and "q < 2199023255552"
  shows "\<exists>r. f64_round q = Fin r \<and> 0 \<le> r \<and> \<bar>r - q\<bar> \<le> 1 / 4096"
proof -
  have "q < pow2 41"
    using assms(2) by (simp add: pow2_def)
  from f64_round_near [OF assms(1) this]
  obtain r where r: "f64_round q = Fin r" "0 \<le> r" "\<bar>r - q\<bar> \<le> pow2 (41 - 53)"
    by auto
  have p: "pow2 (41 - 53) = 1 / 4096"
    by (simp add: pow2_def)
  from r(3) have "\<bar>r - q\<bar> \<le> 1 / 4096"
    unfolding p .
  with r(1,2) show ?thesis
    by blast
qed

lemma trunc_rat_nonneg: "0 \<le> q \<Longrightarrow> trunc_rat q = \<lfloor>q\<rfloor>"
  by (simp add: trunc_rat_def)

subsection \<open>The size of a request\<close>

lemma MaxBytes_bounds: "1000000 \<le> MaxBytes w \<and> MaxBytes w \<le> MaxInt32"
proof (cases "MaxInt32 < expectedBytes w \<or> expectedBytes w < 0")
  case True
  then have "MaxBytes w = MaxInt32"
    by (simp add: MaxBytes_def)
  then show ?thesis
    by (simp add: MaxInt32_def)
next
  case False
  then have fits: "0 \<le> expectedBytes w" "expectedBytes w \<le> 2147483647"
    by (simp_all add: MaxInt32_def)
  from False have "MaxBytes w = wrap32 (max 1000000 (expectedBytes w))"
    by (simp add: MaxBytes_def)
  also from fits have "\<dots> = max 1000000 (expectedBytes w)"
    by (intro wrap32_id) simp_all
  finally show ?thesis
    using fits by (simp add: MaxInt32_def)
qed

text \<open>
  Claim C3. Whatever the estimate and the two offsets of a want are, also when their
  product overflows or is negative, \<open>MaxBytes\<close> lies between 1,000,000 and
  \<open>2\<^sup>3\<^sup>1 - 1\<close>.
\<close>

theorem MaxBytes_range: "1000000 \<le> MaxBytes w \<and> MaxBytes w \<le> 2 ^ 31 - 1"
  using MaxBytes_bounds [of w] by (simp add: MaxInt32_def)

text \<open>
  The bound at a want whose product of estimate and range overflows \<open>int64\<close>: the
  product wraps to the least \<open>int64\<close>, the conversion of the scaled value does not fit,
  and the request is capped.
\<close>

lemma expectedBytes_overflow: "expectedBytes overflow_want = MinInt64"
proof -
  have w: "wrap64 (estimatedBytesPerRecord overflow_want
      * wrap64 (endOffset overflow_want - startOffset overflow_want)) = - 9223372036854775808"
    by (simp add: overflow_want_def wrap64_def)
  have i: "f64_of_int (- 9223372036854775808) = Fin (- 9223372036854775808)"
    unfolding f64_of_int_def
    by (simp, subst f64_round_at [where l = 63]) (simp_all add: pow2_def rne_def Let_def)
  have m: "f64_mul overFetchBytesFactor (Fin (- 9223372036854775808))
      = Fin (- 9684540638697515008)"
    unfolding c105
    by (simp, subst f64_round_at [where l = 63]) (simp_all add: pow2_def rne_def Let_def)
  show ?thesis
    unfolding expectedBytes_def w i m
    by (simp add: f64_to_int64_def trunc_rat_def MinInt64_def MaxInt64_def)
qed

theorem MaxBytes_range_witness:
  "MaxBytes overflow_want = 2147483647
   \<and> 1000000 \<le> MaxBytes overflow_want \<and> MaxBytes overflow_want \<le> 2 ^ 31 - 1"
proof -
  have "MaxBytes overflow_want = 2147483647"
    by (simp add: MaxBytes_def expectedBytes_overflow MinInt64_def MaxInt32_def)
  with MaxBytes_range [of overflow_want] show ?thesis
    by simp
qed

subsection \<open>The byte estimator\<close>

lemma Update_fields [simp]:
  "startOffset (UpdateBytesPerRecord w b n) = startOffset w"
  "endOffset (UpdateBytesPerRecord w b n) = endOffset w"
  "targetMaxBytes (UpdateBytesPerRecord w b n) = targetMaxBytes w"
  "result (UpdateBytesPerRecord w b n) = result w"
  by (simp_all add: UpdateBytesPerRecord_def Let_def)

text \<open>The spec's example, step by step: \<open>0.8 * 10\<close> rounds to 8 and \<open>0.2 * 20\<close> to 4.\<close>

lemma f64_to_int64_12:
  "f64_to_int64
     (f64_add (f64_mul currentEstimateWeight (f64_of_int 10))
        (f64_mul oneMinusCurrentEstimateWeight (f64_div (f64_of_int 2000) (f64_of_int 100)))) = 12"
proof -
  have i: "f64_of_int 10 = Fin 10" "f64_of_int 2000 = Fin 2000" "f64_of_int 100 = Fin 100"
    by (simp_all add: f64_of_int_exact)
  have d: "f64_div (Fin 2000) (Fin 100) = Fin 20"
    by (simp, subst f64_round_at [where l = 4]) (simp_all add: pow2_def rne_def Let_def)
  have a: "f64_mul currentEstimateWeight (Fin 10) = Fin 8"
    unfolding c08 by (simp, subst f64_round_at [where l = 3]) (simp_all add: pow2_def rne_def Let_def)
  have b: "f64_mul oneMinusCurrentEstimateWeight (Fin 20) = Fin 4"
    unfolding c02 by (simp, subst f64_round_at [where l = 2]) (simp_all add: pow2_def rne_def Let_def)
  have s: "f64_add (Fin 8) (Fin 4) = Fin 12"
    by (simp, subst f64_round_at [where l = 3]) (simp_all add: pow2_def rne_def Let_def)
  show ?thesis
    unfolding i d a b s by (simp add: f64_to_int64_def trunc_rat_def MinInt64_def MaxInt64_def)
qed

lemma UpdateBytesPerRecord_near:
  assumes e: "0 \<le> estimatedBytesPerRecord w" "estimatedBytesPerRecord w \<le> 1099511627776"
    and b: "0 \<le> b" "b \<le> 1099511627776"
    and n: "1 \<le> n" "n \<le> 1099511627776"
  shows "\<lfloor>8 / 10 * of_int (estimatedBytesPerRecord w) + 2 / 10 * (of_int b / of_int n) - (1 / 1024 :: rat)\<rfloor>
           \<le> estimatedBytesPerRecord (UpdateBytesPerRecord w b n)
       \<and> estimatedBytesPerRecord (UpdateBytesPerRecord w b n)
           \<le> \<lfloor>8 / 10 * of_int (estimatedBytesPerRecord w) + 2 / 10 * (of_int b / of_int n) + (1 / 1024 :: rat)\<rfloor>"
proof -
  define E :: rat where "E = of_int (estimatedBytesPerRecord w)"
  define R :: rat where "R = of_int b / of_int n"
  have E: "0 \<le> E" "E \<le> 1099511627776"
    using e by (simp_all add: E_def)
  have bn: "0 \<le> (of_int b :: rat)" "(of_int b :: rat) \<le> 1099511627776" "1 \<le> (of_int n :: rat)"
    using b n by simp_all
  then have R0: "0 \<le> R"
    by (simp add: R_def)
  from bn have "R * of_int n = of_int b"
    by (simp add: R_def)
  with mult_left_mono [OF bn(3) R0] have "R \<le> of_int b"
    by simp
  with bn have R: "R \<le> 1099511627776"
    by linarith
  have exact: "f64_of_int (estimatedBytesPerRecord w) = Fin E" "f64_of_int b = Fin (of_int b)"
    "f64_of_int n = Fin (of_int n)"
    using e b n by (simp_all add: E_def f64_of_int_exact)
  from n have "(of_int n :: rat) \<noteq> 0"
    by simp
  then have div: "f64_div (Fin (of_int b)) (Fin (of_int n)) = f64_round R"
    by (simp add: R_def)
  from R0 R obtain T where T: "f64_round R = Fin T" "0 \<le> T" "\<bar>T - R\<bar> \<le> 1 / 4096"
    using f64_round_near41 [of R] by auto
  from T(3) have Tb: "T \<le> R + 1 / 4096" "R \<le> T + 1 / 4096"
    by linarith+
  define x1 :: rat where "x1 = 3602879701896397 / 4503599627370496 * E"
  from E have "0 \<le> x1" "x1 < 2199023255552"
    unfolding x1_def by linarith+
  then obtain A1 where A1: "f64_round x1 = Fin A1" "0 \<le> A1" "\<bar>A1 - x1\<bar> \<le> 1 / 4096"
    using f64_round_near41 [of x1] by auto
  from A1(3) have A1b: "A1 \<le> x1 + 1 / 4096" "x1 \<le> A1 + 1 / 4096"
    by linarith+
  define x2 :: rat where "x2 = 3602879701896397 / 18014398509481984 * T"
  from T(2) Tb R have "0 \<le> x2" "x2 < 2199023255552"
    unfolding x2_def by linarith+
  then obtain A2 where A2: "f64_round x2 = Fin A2" "0 \<le> A2" "\<bar>A2 - x2\<bar> \<le> 1 / 4096"
    using f64_round_near41 [of x2] by auto
  from A2(3) have A2b: "A2 \<le> x2 + 1 / 4096" "x2 \<le> A2 + 1 / 4096"
    by linarith+
  from A1(2) A2(2) A1b A2b E T(2) Tb R have "0 \<le> A1 + A2" "A1 + A2 < 2199023255552"
    unfolding x1_def x2_def by linarith+
  then obtain S where S: "f64_round (A1 + A2) = Fin S" "0 \<le> S" "\<bar>S - (A1 + A2)\<bar> \<le> 1 / 4096"
    using f64_round_near41 [of "A1 + A2"] by auto
  from S(3) have Sb: "S \<le> A1 + A2 + 1 / 4096" "A1 + A2 \<le> S + 1 / 4096"
    by linarith+
  have m1: "f64_mul currentEstimateWeight (f64_of_int (estimatedBytesPerRecord w)) = Fin A1"
    unfolding c08 exact(1) f64_mul.simps(1) x1_def [symmetric] by (rule A1(1))
  have dv: "f64_div (f64_of_int b) (f64_of_int n) = Fin T"
    unfolding exact div by (rule T(1))
  have m2: "f64_mul oneMinusCurrentEstimateWeight (Fin T) = Fin A2"
    unfolding c02 f64_mul.simps(1) x2_def [symmetric] by (rule A2(1))
  have ad: "f64_add (Fin A1) (Fin A2) = Fin S"
    unfolding f64_add.simps(1) by (rule S(1))
  have est: "estimatedBytesPerRecord (UpdateBytesPerRecord w b n) = f64_to_int64 (Fin S)"
    by (simp add: UpdateBytesPerRecord_def Let_def m1 dv m2 S(1))
  define x :: rat where "x = 8 / 10 * E + 2 / 10 * R"
  from Sb A1b A2b Tb E R R0 T(2) have near: "x - 1 / 1024 \<le> S" "S \<le> x + 1 / 1024"
    unfolding x_def x1_def x2_def by linarith+
  from near E R have "S < 2199023255552"
    unfolding x_def by linarith
  with S(2) have "0 \<le> \<lfloor>S\<rfloor>" "\<lfloor>S\<rfloor> < 2199023255552"
    by (simp_all add: floor_less_iff)
  with S(2) have "f64_to_int64 (Fin S) = \<lfloor>S\<rfloor>"
    by (simp add: f64_to_int64_def trunc_rat_nonneg MinInt64_def MaxInt64_def)
  with est have "estimatedBytesPerRecord (UpdateBytesPerRecord w b n) = \<lfloor>S\<rfloor>"
    by simp
  moreover have "\<lfloor>x - 1 / 1024\<rfloor> \<le> \<lfloor>S\<rfloor>" "\<lfloor>S\<rfloor> \<le> \<lfloor>x + 1 / 1024\<rfloor>"
    using near by (simp_all only: floor_mono)
  ultimately show ?thesis
    unfolding x_def E_def R_def by simp
qed

text \<open>
  Claim C4, as amended. \<open>UpdateBytesPerRecord\<close> changes the estimate and no other field
  of the want. With estimate 10, an observation of 2000 bytes over 100 records gives the
  estimate 12 exactly. The new estimate is an integer: \<open>0.8 * e + 0.2 * (bytes / records)\<close>
  evaluated in float64 with its fraction discarded, so for estimates, byte counts and
  record counts up to \<open>2\<^sup>4\<^sup>0\<close> (and at least one record) it lies between the floors of
  the exact value minus and plus \<open>2\<^sup>-\<^sup>1\<^sup>0\<close>.
\<close>

theorem UpdateBytesPerRecord_smoothing:
  "(estimatedBytesPerRecord w = 10
       \<longrightarrow> UpdateBytesPerRecord w 2000 100 = w \<lparr> estimatedBytesPerRecord := 12 \<rparr>)
   \<and> UpdateBytesPerRecord w b n
       = w \<lparr> estimatedBytesPerRecord := estimatedBytesPerRecord (UpdateBytesPerRecord w b n) \<rparr>
   \<and> (0 \<le> estimatedBytesPerRecord w \<and> estimatedBytesPerRecord w \<le> 2 ^ 40
        \<and> 0 \<le> b \<and> b \<le> 2 ^ 40 \<and> 1 \<le> n \<and> n \<le> 2 ^ 40
       \<longrightarrow> \<lfloor>8 / 10 * of_int (estimatedBytesPerRecord w) + 2 / 10 * (of_int b / of_int n)
              - (1 / 1024 :: rat)\<rfloor>
             \<le> estimatedBytesPerRecord (UpdateBytesPerRecord w b n)
           \<and> estimatedBytesPerRecord (UpdateBytesPerRecord w b n)
             \<le> \<lfloor>8 / 10 * of_int (estimatedBytesPerRecord w) + 2 / 10 * (of_int b / of_int n)
                  + (1 / 1024 :: rat)\<rfloor>)"
proof (intro conjI impI)
  assume "estimatedBytesPerRecord w = 10"
  then show "UpdateBytesPerRecord w 2000 100 = w \<lparr> estimatedBytesPerRecord := 12 \<rparr>"
    by (simp add: UpdateBytesPerRecord_def Let_def f64_to_int64_12)
next
  show "UpdateBytesPerRecord w b n
       = w \<lparr> estimatedBytesPerRecord := estimatedBytesPerRecord (UpdateBytesPerRecord w b n) \<rparr>"
    by (simp add: UpdateBytesPerRecord_def Let_def)
next
  assume a: "0 \<le> estimatedBytesPerRecord w \<and> estimatedBytesPerRecord w \<le> 2 ^ 40
        \<and> 0 \<le> b \<and> b \<le> 2 ^ 40 \<and> 1 \<le> n \<and> n \<le> 2 ^ 40"
  then have "0 \<le> estimatedBytesPerRecord w" "estimatedBytesPerRecord w \<le> 1099511627776"
    "0 \<le> b" "b \<le> 1099511627776" "1 \<le> n" "n \<le> 1099511627776"
    by simp_all
  from UpdateBytesPerRecord_near [OF this]
  show "\<lfloor>8 / 10 * of_int (estimatedBytesPerRecord w) + 2 / 10 * (of_int b / of_int n)
              - (1 / 1024 :: rat)\<rfloor>
             \<le> estimatedBytesPerRecord (UpdateBytesPerRecord w b n)"
    and "estimatedBytesPerRecord (UpdateBytesPerRecord w b n)
             \<le> \<lfloor>8 / 10 * of_int (estimatedBytesPerRecord w) + 2 / 10 * (of_int b / of_int n)
                  + (1 / 1024 :: rat)\<rfloor>"
    by simp_all
qed

text \<open>
  The spec's example at a want with estimate 10, and an observation of 2050 bytes over
  100 records, where the exact value is 12.1.
\<close>

theorem UpdateBytesPerRecord_smoothing_witness:
  "estimatedBytesPerRecord example_want = 10
   \<and> UpdateBytesPerRecord example_want 2000 100
       = \<lparr> startOffset = 0, endOffset = 2, estimatedBytesPerRecord = 12, targetMaxBytes = 20,
           result = 7 \<rparr>
   \<and> estimatedBytesPerRecord (UpdateBytesPerRecord example_want 2050 100) = 12"
proof -
  have e: "estimatedBytesPerRecord example_want = 10"
    by (simp add: example_want_def)
  have fl: "\<lfloor>8 / 10 * 10 + 2 / 10 * (2050 / 100) - (1 / 1024 :: rat)\<rfloor> = 12"
    "\<lfloor>8 / 10 * 10 + 2 / 10 * (2050 / 100) + (1 / 1024 :: rat)\<rfloor> = 12"
    by (simp_all add: floor_eq_iff)
  from UpdateBytesPerRecord_smoothing [of example_want 2050 100] e fl
  have "estimatedBytesPerRecord (UpdateBytesPerRecord example_want 2050 100) = 12"
    by simp
  with UpdateBytesPerRecord_smoothing [of example_want 2000 100] e show ?thesis
    by (simp add: example_want_def)
qed

text \<open>
  The claim as it was stated fails: with estimate 10 and 2050 bytes over 100 records the
  formula gives 12.1, the new estimate is 12.
\<close>

theorem estimate_is_truncated:
  "of_int (estimatedBytesPerRecord (UpdateBytesPerRecord example_want 2050 100))
     \<noteq> (8 / 10 * of_int (estimatedBytesPerRecord example_want) + 2 / 10 * (2050 / 100) :: rat)"
proof -
  have e: "estimatedBytesPerRecord example_want = 10"
    by (simp add: example_want_def)
  have fl: "\<lfloor>8 / 10 * 10 + 2 / 10 * (2050 / 100) - (1 / 1024 :: rat)\<rfloor> = 12"
    "\<lfloor>8 / 10 * 10 + 2 / 10 * (2050 / 100) + (1 / 1024 :: rat)\<rfloor> = 12"
    by (simp_all add: floor_eq_iff)
  from UpdateBytesPerRecord_near [of example_want 2050 100] e fl
  have "estimatedBytesPerRecord (UpdateBytesPerRecord example_want 2050 100) = 12"
    by simp
  with e show ?thesis
    by simp
qed


subsection \<open>The error classifier\<close>

lemma handle_OffsetOutOfRange:
  assumes "errors_Is e OffsetOutOfRange"
  shows "handleKafkaFetchErr (Some e) fw (Inr ps) =
           (if startOffset fw < ps
            then (if endOffset fw \<le> ps then fw \<lparr> startOffset := endOffset fw \<rparr>
                  else fw \<lparr> startOffset := ps \<rparr>)
            else fw, [])"
  using assms by (simp add: handleKafkaFetchErr_def)

lemma handle_OffsetOutOfRange_effects:
  assumes "errors_Is e OffsetOutOfRange"
  shows "snd (handleKafkaFetchErr (Some e) fw co) = []"
  using assms by (simp add: handleKafkaFetchErr_def split: sum.splits)


lemma handle_result: "result (fst (handleKafkaFetchErr err fw co)) = result fw"
  by (simp add: handleKafkaFetchErr_def Let_def split: option.splits sum.splits)







subsection \<open>The worker\<close>

lemma send_result_want [simp]: "out_want (send_result env w f evs) = w"
  by (simp add: send_result_def Let_def split: select_outcome.splits blocking_outcome.splits)

lemma send_result_events:
  "set (out_events (send_result env w f evs)) \<subseteq> set evs \<union> {Close (result w), Publish (result w) f}"
  by (auto simp add: send_result_def Let_def split: select_outcome.splits blocking_outcome.splits)

lemma attempt_unfold:
  assumes "f0 = fetchSingle cfg w (leader env) (broker env)"
    and "f = Merge f0 prev"
    and "handled = (if Err f \<noteq> None then handleKafkaFetchErr (Err f) w (cachedOffset env) else (w, []))"
    and "evs2 = (if 0 \<le> HighWatermark f
                 then ([AddBufferedRecords (int (length (Records f0)))] @ map Effect (snd handled))
                        @ [CasHWM (HighWatermark f)]
                 else [AddBufferedRecords (int (length (Records f0)))] @ map Effect (snd handled))"
  shows "attempt cfg env w prev =
     (if Records f = [] then
        (if doneClosed env
         then \<lparr> out_want = fst handled, out_previous = f,
                out_events = evs2 @ [Close (result (fst handled))], out_returned = True \<rparr>
         else \<lparr> out_want = fst handled, out_previous = f, out_events = evs2, out_returned = False \<rparr>)
      else send_result env
             (UpdateBytesPerRecord
                ((fst handled) \<lparr> startOffset := wrap64 (Offset (last (Records f)) + 1) \<rparr>)
                (fetchedBytes f) (int (length (Records f))))
             f (evs2 @ [UpdateCall (fetchedBytes f) (int (length (Records f))), BackoffReset]))"
  unfolding assms attempt_def Let_def by (rule refl)

lemma attempt_sends_records:
  assumes "x \<in> set (out_events (attempt cfg env w prev))"
  shows "sends_records x"
proof -
  define f0 where "f0 = fetchSingle cfg w (leader env) (broker env)"
  define f where "f = Merge f0 prev"
  define handled where
    "handled = (if Err f \<noteq> None then handleKafkaFetchErr (Err f) w (cachedOffset env) else (w, []))"
  define evs2 where
    "evs2 = (if 0 \<le> HighWatermark f
             then ([AddBufferedRecords (int (length (Records f0)))] @ map Effect (snd handled))
                    @ [CasHWM (HighWatermark f)]
             else [AddBufferedRecords (int (length (Records f0)))] @ map Effect (snd handled))"
  note unfolded = attempt_unfold [OF f0_def f_def handled_def evs2_def]
  have quiet: "sends_records y" if "y \<in> set evs2" for y
    using that by (auto simp add: evs2_def sends_records_def split: if_splits)
  show ?thesis
  proof (cases "Records f = []")
    case True
    with assms quiet show ?thesis
      by (auto simp add: unfolded sends_records_def split: if_splits)
  next
    case False
    then have len: "1 \<le> int (length (Records f))"
      by (cases "Records f") simp_all
    from False assms have "x \<in> set (out_events (send_result env
          (UpdateBytesPerRecord
             ((fst handled) \<lparr> startOffset := wrap64 (Offset (last (Records f)) + 1) \<rparr>)
             (fetchedBytes f) (int (length (Records f))))
          f (evs2 @ [UpdateCall (fetchedBytes f) (int (length (Records f))), BackoffReset])))"
      by (simp add: unfolded)
    from subsetD [OF send_result_events this] False len quiet show ?thesis
      by (auto simp add: sends_records_def)
  qed
qed

lemma run_want_sends_records:
  "x \<in> set (fst (run_want cfg envs w prev)) \<Longrightarrow> sends_records x"
proof (induction envs arbitrary: w prev)
  case Nil
  then show ?case by simp
next
  case (Cons env envs)
  show ?case
  proof (cases "ongoing env \<and> startOffset w < endOffset w")
    case False
    with Cons.prems show ?thesis
      by (auto simp add: sends_records_def)
  next
    case True
    with Cons.prems Cons.IH attempt_sends_records show ?thesis
      by (auto simp add: Let_def split: if_splits)
  qed
qed

lemma example_fetch:
  "fetchSingle example_config example_want (leader example_env) (broker example_env)
     = example_result"
  by (simp add: fetchSingle_def example_env_def example_config_def parseFetchResponse_def
      assertResponseContainsPartition_def example_response_def example_want_def
      example_records_def example_result_def)


text \<open>
  Claim C10. Every result a worker sends on a want's channel has at least one record,
  and every call of \<open>UpdateBytesPerRecord\<close> the worker makes has a record count of at
  least 1; so has the call the dispatcher makes when it drains a result a worker sent.
  The divisor \<open>float64(n)\<close> of the estimator is then a positive finite number.
\<close>

theorem published_results_have_records:
  "(Publish c f \<in> set (fst (run_want cfg envs w prev)) \<longrightarrow> Records f \<noteq> [])
   \<and> (UpdateCall b n \<in> set (fst (run_want cfg envs w prev)) \<longrightarrow> 1 \<le> n)
   \<and> (Publish c f \<in> set (fst (run_want cfg envs w prev))
        \<and> start_iteration cfg hwm d (CaseRefill (Some f)) = Continue d' out
      \<longrightarrow> nextFetch d' = UpdateBytesPerRecord (nextFetch d) (fetchedBytes f) (int (length (Records f)))
          \<and> 1 \<le> int (length (Records f)))
   \<and> (1 \<le> n \<and> n \<le> MaxInt64 \<longrightarrow> (\<exists>r. f64_of_int n = Fin r \<and> 0 < r))"
proof -
  have pub: "Records f \<noteq> []" if "Publish c f \<in> set (fst (run_want cfg envs w prev))"
    using run_want_sends_records [OF that] by (simp add: sends_records_def)
  have upd: "1 \<le> n" if "UpdateCall b n \<in> set (fst (run_want cfg envs w prev))"
    using run_want_sends_records [OF that] by (simp add: sends_records_def)
  have len: "1 \<le> int (length (Records f))" if "Records f \<noteq> []"
    using that by (cases "Records f") simp_all
  have refill: "nextFetch d' = UpdateBytesPerRecord (nextFetch d) (fetchedBytes f) (int (length (Records f)))"
    if "start_iteration cfg hwm d (CaseRefill (Some f)) = Continue d' out"
    using that by (auto simp add: start_iteration_def split: option.splits)
  have div: "\<exists>r. f64_of_int n = Fin r \<and> 0 < r" if "1 \<le> n \<and> n \<le> MaxInt64"
    using that f64_of_int_pos by blast
  from pub upd len refill div show ?thesis
    by blast
qed

text \<open>A worker that fetches the three records of the example and sends them.\<close>

lemma example_run:
  "run_want example_config [example_env] example_want zeroFetchResult =
     ([AddBufferedRecords 3, CasHWM 3, UpdateCall 6 3, BackoffReset, Publish 7 example_result],
      Running)"
proof -
  have merged: "Merge example_result zeroFetchResult = example_result"
    by (simp add: Merge_def zeroFetchResult_def newEmptyFetchResult_def example_result_def wrap64_def)
  have res: "Records example_result \<noteq> []" "Err example_result = None"
    "HighWatermark example_result = 3" "fetchedBytes example_result = 6"
    "length (Records example_result) = 3"
    by (simp_all add: example_result_def example_records_def)
  have w: "startOffset example_want < endOffset example_want" "result example_want = 7"
    by (simp_all add: example_want_def)
  have env: "ongoing example_env" "sel example_env = SelSent"
    by (simp_all add: example_env_def)
  show ?thesis
    using res w env
    by (simp add: attempt_unfold [OF refl refl refl refl] example_fetch merged send_result_def
        Let_def)
qed

theorem published_results_have_records_witness:
  "Publish 7 example_result
      \<in> set (fst (run_want example_config [example_env] example_want zeroFetchResult))
   \<and> Records example_result \<noteq> []
   \<and> UpdateCall 6 3
      \<in> set (fst (run_want example_config [example_env] example_want zeroFetchResult))
   \<and> (\<exists>r. f64_of_int 3 = Fin r \<and> 0 < r)"
proof -
  have run: "fst (run_want example_config [example_env] example_want zeroFetchResult) =
      [AddBufferedRecords 3, CasHWM 3, UpdateCall 6 3, BackoffReset, Publish 7 example_result]"
    by (simp only: example_run fst_conv)
  have pub: "Publish 7 example_result
      \<in> set (fst (run_want example_config [example_env] example_want zeroFetchResult))"
    and upd: "UpdateCall 6 3
      \<in> set (fst (run_want example_config [example_env] example_want zeroFetchResult))"
    unfolding run by simp_all
  have n: "(1 :: int) \<le> 3 \<and> 3 \<le> MaxInt64"
    by (simp add: MaxInt64_def)
  from published_results_have_records [of 7 example_result example_config "[example_env]"
      example_want zeroFetchResult 6 3] pub upd n
  show ?thesis
    by blast
qed


text \<open>
  Claim C9. When the leader is known and the send of the fetch request fails with an
  error that is \<open>context.Canceled\<close>, \<open>fetchSingle\<close> returns a result with no records, no
  fetched bytes and no error. The attempt that made the request then does not call the
  error classifier: it waits on no backoff and forces no metadata refresh, the end offset
  of the want stays, and when no earlier result is pending the want is unchanged and
  nothing is sent.
\<close>

theorem cancelled_send_gives_empty_result:
  assumes leader: "leader env = (leaderID, leaderEpoch, None)"
    and known: "\<not> (leaderID = - 1 \<and> leaderEpoch = - 1)"
    and send: "broker env (buildFetchRequest cfg fw leaderEpoch) = Inl e"
    and cancelled: "errors_Is e ContextCanceled"
  shows "Records (fetchSingle cfg fw (leader env) (broker env)) = []
       \<and> fetchedBytes (fetchSingle cfg fw (leader env) (broker env)) = 0
       \<and> Err (fetchSingle cfg fw (leader env) (broker env)) = None
       \<and> filter is_Effect (out_events (attempt cfg env fw prev)) = []
       \<and> endOffset (out_want (attempt cfg env fw prev)) = endOffset fw
       \<and> (Records prev = [] \<longrightarrow> out_want (attempt cfg env fw prev) = fw
             \<and> filter is_Publish (out_events (attempt cfg env fw prev)) = [])"
proof -
  define f0 where "f0 = fetchSingle cfg fw (leader env) (broker env)"
  define f where "f = Merge f0 prev"
  define handled where
    "handled = (if Err f \<noteq> None then handleKafkaFetchErr (Err f) fw (cachedOffset env) else (fw, []))"
  define evs2 where
    "evs2 = (if 0 \<le> HighWatermark f
             then ([AddBufferedRecords (int (length (Records f0)))] @ map Effect (snd handled))
                    @ [CasHWM (HighWatermark f)]
             else [AddBufferedRecords (int (length (Records f0)))] @ map Effect (snd handled))"
  note unfolded = attempt_unfold [OF f0_def f_def handled_def evs2_def]
  from leader known send cancelled have f0: "f0 = newEmptyFetchResult None"
    by (auto simp add: f0_def fetchSingle_def)
  then have f: "Err f = None" "Records f = Records prev"
    by (simp_all add: f_def Merge_def newEmptyFetchResult_def)
  then have handled: "handled = (fw, [])"
    by (simp add: handled_def)
  have evs2: "filter is_Effect evs2 = []" "filter is_Publish evs2 = []"
    by (simp_all add: evs2_def handled is_Effect_def is_Publish_def)
  have sent: "filter is_Effect (out_events (send_result env w g evs)) = filter is_Effect evs" for w g evs
    by (simp add: send_result_def Let_def is_Effect_def
        split: select_outcome.splits blocking_outcome.splits)
  show ?thesis
    using f evs2
    by (simp add: f0 [unfolded f0_def] newEmptyFetchResult_def unfolded handled sent
        is_Effect_def is_Publish_def)
qed

text \<open>The example's worker when its context is cancelled during the send.\<close>

lemma cancelled_fetch:
  "leader cancelled_env = (1, 5, None)"
  "broker cancelled_env (buildFetchRequest example_config example_want 5)
     = Inl (GoError [ContextCanceled] ''context canceled'')"
  by (simp_all add: cancelled_env_def example_env_def)

theorem cancelled_send_gives_empty_result_witness:
  "Records (fetchSingle example_config example_want (leader cancelled_env) (broker cancelled_env)) = []
   \<and> fetchedBytes (fetchSingle example_config example_want (leader cancelled_env) (broker cancelled_env)) = 0
   \<and> Err (fetchSingle example_config example_want (leader cancelled_env) (broker cancelled_env)) = None
   \<and> out_want (attempt example_config cancelled_env example_want zeroFetchResult) = example_want
   \<and> filter is_Effect (out_events (attempt example_config cancelled_env example_want zeroFetchResult)) = []"
proof -
  have known: "\<not> ((1 :: int) = - 1 \<and> (5 :: int) = - 1)"
    by simp
  have c: "errors_Is (GoError [ContextCanceled] ''context canceled'') ContextCanceled"
    by (simp add: errors_Is_def)
  have p: "Records zeroFetchResult = []"
    by (simp add: zeroFetchResult_def newEmptyFetchResult_def)
  from cancelled_send_gives_empty_result [OF cancelled_fetch(1) known cancelled_fetch(2) c,
      of zeroFetchResult] p
  show ?thesis
    by blast
qed


text \<open>
  Claim C5. On an offset-out-of-range error with the partition start offset known, for a
  want with \<open>startOffset \<le> endOffset\<close>: when the partition start is at or after the end
  offset the want comes back with \<open>startOffset = endOffset\<close>; when it lies strictly between
  the two offsets \<open>startOffset\<close> becomes the partition start; otherwise the want is
  unchanged. The classifier calls no backoff wait in any of the three cases. In the
  first case a worker whose fetch brought the error and no records, with no earlier
  records pending, sends nothing, waits on nothing and is done with the want.
\<close>

theorem offset_out_of_range_before_start:
  assumes oor: "errors_Is e OffsetOutOfRange"
    and inv: "startOffset fw \<le> endOffset fw"
  shows "handleKafkaFetchErr (Some e) fw (Inr partitionStart) =
           (if endOffset fw \<le> partitionStart then fw \<lparr> startOffset := endOffset fw \<rparr>
            else if startOffset fw < partitionStart then fw \<lparr> startOffset := partitionStart \<rparr>
            else fw, [])
     \<and> (endOffset fw \<le> partitionStart \<and> startOffset fw < endOffset fw \<and> ongoing env
          \<and> cachedOffset env = Inr partitionStart
          \<and> Err (fetchSingle cfg fw (leader env) (broker env)) = Some e
          \<and> Records (fetchSingle cfg fw (leader env) (broker env)) = []
          \<and> Records prev = []
        \<longrightarrow> snd (run_want cfg (env # env' # envs) fw prev) \<noteq> Running
            \<and> filter is_Publish (fst (run_want cfg (env # env' # envs) fw prev)) = []
            \<and> filter is_Effect (fst (run_want cfg (env # env' # envs) fw prev)) = [])"
proof (intro conjI impI)
  show "handleKafkaFetchErr (Some e) fw (Inr partitionStart) =
           (if endOffset fw \<le> partitionStart then fw \<lparr> startOffset := endOffset fw \<rparr>
            else if startOffset fw < partitionStart then fw \<lparr> startOffset := partitionStart \<rparr>
            else fw, [])"
  proof (cases "startOffset fw < partitionStart")
    case True
    then show ?thesis
      by (simp add: handle_OffsetOutOfRange [OF oor])
  next
    case False
    with inv have "endOffset fw \<le> partitionStart \<Longrightarrow> startOffset fw = endOffset fw"
      by simp
    with False show ?thesis
      by (auto simp add: handle_OffsetOutOfRange [OF oor])
  qed
next
  assume a: "endOffset fw \<le> partitionStart \<and> startOffset fw < endOffset fw \<and> ongoing env
          \<and> cachedOffset env = Inr partitionStart
          \<and> Err (fetchSingle cfg fw (leader env) (broker env)) = Some e
          \<and> Records (fetchSingle cfg fw (leader env) (broker env)) = []
          \<and> Records prev = []"
  define f0 where "f0 = fetchSingle cfg fw (leader env) (broker env)"
  define f where "f = Merge f0 prev"
  define handled where
    "handled = (if Err f \<noteq> None then handleKafkaFetchErr (Err f) fw (cachedOffset env) else (fw, []))"
  define evs2 where
    "evs2 = (if 0 \<le> HighWatermark f
             then ([AddBufferedRecords (int (length (Records f0)))] @ map Effect (snd handled))
                    @ [CasHWM (HighWatermark f)]
             else [AddBufferedRecords (int (length (Records f0)))] @ map Effect (snd handled))"
  note unfolded = attempt_unfold [OF f0_def f_def handled_def evs2_def]
  from a have f: "Records f = []" "Err f = Some e"
    by (simp_all add: f_def f0_def Merge_def)
  from a f have handled: "handled = (fw \<lparr> startOffset := endOffset fw \<rparr>, [])"
    by (simp add: handled_def handle_OffsetOutOfRange [OF oor])
  have evs2: "filter is_Publish evs2 = []" "filter is_Effect evs2 = []"
    by (simp_all add: evs2_def handled is_Publish_def is_Effect_def)
  let ?out = "attempt cfg env fw prev"
  have out: "out_want ?out = fw \<lparr> startOffset := endOffset fw \<rparr>"
    "filter is_Publish (out_events ?out) = []" "filter is_Effect (out_events ?out) = []"
    using f evs2 by (simp_all add: unfolded handled is_Publish_def is_Effect_def)
  have rest: "run_want cfg (env' # envs) (out_want ?out) (out_previous ?out)
      = ([Close (result fw)], WantDone)"
    by (simp add: out)
  from a have run: "run_want cfg (env # env' # envs) fw prev =
      (if out_returned ?out then (out_events ?out, Returned)
       else (out_events ?out @ [Close (result fw)], WantDone))"
    unfolding run_want.simps(2) [of cfg env] Let_def rest by simp
  show "snd (run_want cfg (env # env' # envs) fw prev) \<noteq> Running"
    unfolding run by simp
  show "filter is_Publish (fst (run_want cfg (env # env' # envs) fw prev)) = []"
    unfolding run using out by (simp add: is_Publish_def)
  show "filter is_Effect (fst (run_want cfg (env # env' # envs) fw prev)) = []"
    unfolding run using out by (simp add: is_Effect_def)
qed

text \<open>The spec's scenario: the want for offsets 0 to 9 when the partition starts at 20.\<close>

lemma expired_fetch:
  "fetchSingle expired_config expired_want (leader expired_env) (broker expired_env) =
     \<lparr> Records = [], Err = Some offsetOutOfRange, HighWatermark = - 1, LogStartOffset = - 1,
       fetchedBytes = 0 \<rparr>"
  by (simp add: fetchSingle_def expired_env_def example_env_def expired_config_def
      example_config_def parseFetchResponse_def assertResponseContainsPartition_def
      example_response_def)

theorem offset_out_of_range_before_start_witness:
  "handleKafkaFetchErr (Some offsetOutOfRange) expired_want (Inr 20)
     = (\<lparr> startOffset = 10, endOffset = 10, estimatedBytesPerRecord = 10, targetMaxBytes = 100,
          result = 7 \<rparr>, [])
   \<and> snd (run_want expired_config [expired_env, expired_env] expired_want zeroFetchResult) \<noteq> Running
   \<and> filter is_Publish
        (fst (run_want expired_config [expired_env, expired_env] expired_want zeroFetchResult)) = []"
proof -
  have oor: "errors_Is offsetOutOfRange OffsetOutOfRange"
    by (simp add: errors_Is_def offsetOutOfRange_def)
  have inv: "startOffset expired_want \<le> endOffset expired_want"
    by (simp add: expired_want_def)
  have hyp: "endOffset expired_want \<le> 20 \<and> startOffset expired_want < endOffset expired_want
      \<and> ongoing expired_env \<and> cachedOffset expired_env = Inr 20
      \<and> Err (fetchSingle expired_config expired_want (leader expired_env) (broker expired_env))
          = Some offsetOutOfRange
      \<and> Records (fetchSingle expired_config expired_want (leader expired_env) (broker expired_env)) = []
      \<and> Records zeroFetchResult = []"
    unfolding expired_fetch
    by (simp add: expired_want_def expired_env_def example_env_def
        zeroFetchResult_def newEmptyFetchResult_def)
  from offset_out_of_range_before_start [OF oor inv, where partitionStart = 20
      and env = expired_env and cfg = expired_config and prev = zeroFetchResult
      and env' = expired_env and envs = "[]"] hyp
  show ?thesis
    by (simp add: expired_want_def)
qed





subsection \<open>The dispatcher\<close>

text \<open>
  What \<open>Next\<close> does: the new want starts where the old one ends, spans the estimated
  number of records, keeps the estimate and the target, and has the fresh channel. The
  spec's example: after the want for 100 up to 150 comes a want that starts at 150.
\<close>

lemma Next_fields:
  "startOffset (Next c w) = endOffset w"
  "endOffset (Next c w)
     = wrap64 (endOffset w + max 1 (targetMaxBytes w sdiv max (estimatedBytesPerRecord w) 1))"
  "estimatedBytesPerRecord (Next c w) = estimatedBytesPerRecord w"
  "targetMaxBytes (Next c w) = targetMaxBytes w"
  "result (Next c w) = c"
  by (simp_all add: Next_def fetchWantFrom_def Let_def)

lemma Next_advances:
  assumes "MinInt64 \<le> endOffset w"
    and "endOffset w + max 1 (targetMaxBytes w sdiv max (estimatedBytesPerRecord w) 1) \<le> MaxInt64"
  shows "startOffset (Next c w) < endOffset (Next c w)"
proof -
  have "1 \<le> max 1 (targetMaxBytes w sdiv max (estimatedBytesPerRecord w) 1)"
    by simp
  with assms have "MinInt64 \<le> endOffset w + max 1 (targetMaxBytes w sdiv max (estimatedBytesPerRecord w) 1)"
    by linarith
  with assms(2)
  have "wrap64 (endOffset w + max 1 (targetMaxBytes w sdiv max (estimatedBytesPerRecord w) 1))
      = endOffset w + max 1 (targetMaxBytes w sdiv max (estimatedBytesPerRecord w) 1)"
    by (intro wrap64_id) simp_all
  then show ?thesis
    by (simp add: Next_fields)
qed

lemma Next_spec_example:
  "startOffset (Next c \<lparr> startOffset = 100, endOffset = 150, estimatedBytesPerRecord = e,
      targetMaxBytes = t, result = r \<rparr>) = 150"
  by (simp add: Next_fields)

lemma Next_example:
  "Next 8 example_want =
     \<lparr> startOffset = 2, endOffset = 4, estimatedBytesPerRecord = 10, targetMaxBytes = 20,
       result = 8 \<rparr>"
  by (simp add: Next_def fetchWantFrom_def Let_def example_want_def wrap64_def
      signed_divide_int_def)

text \<open>
  Claim C7. When an iteration of the dispatcher dispatches, either nothing is inflight,
  or the inflight bytes plus the next want's \<open>MaxBytes\<close> do not exceed the buffered-bytes
  limit and the next want starts at or below the high watermark; the dispatched want is
  appended to the inflight wants, its \<open>MaxBytes\<close> is added to the inflight bytes, and
  \<open>nextFetch\<close> advances to its \<open>Next\<close>: the new \<open>nextFetch\<close> starts at the end offset
  of the dispatched want, ends the estimated number of records later (strictly after its
  start, where that sum does not overflow \<open>int64\<close>), keeps the estimate and the target,
  and has a new channel. The inflight bytes are taken to stay where the \<open>int64\<close>
  addition does not overflow.
\<close>

theorem dispatch_only_when_permitted:
  assumes step: "start_iteration cfg highWatermark d CaseDispatch = Continue d' out"
    and lo: "MinInt64 \<le> inflightBytes d"
    and hi: "inflightBytes d \<le> MaxInt64 - MaxInt32"
  shows "(inflightWants d = []
          \<or> (inflightBytes d + MaxBytes (nextFetch d) \<le> maxBufferedBytesLimit cfg
              \<and> startOffset (nextFetch d) \<le> highWatermark))
       \<and> inflightWants d' = inflightWants d @ [nextFetch d]
       \<and> nextFetch d' = Next (nextChan d) (nextFetch d)
       \<and> inflightBytes d' = inflightBytes d + MaxBytes (nextFetch d)
       \<and> out = [Dispatched (nextFetch d)]
       \<and> startOffset (nextFetch d') = endOffset (nextFetch d)
       \<and> endOffset (nextFetch d')
           = wrap64 (endOffset (nextFetch d)
               + max 1 (targetMaxBytes (nextFetch d)
                          sdiv max (estimatedBytesPerRecord (nextFetch d)) 1))
       \<and> estimatedBytesPerRecord (nextFetch d') = estimatedBytesPerRecord (nextFetch d)
       \<and> targetMaxBytes (nextFetch d') = targetMaxBytes (nextFetch d)
       \<and> result (nextFetch d') = nextChan d
       \<and> nextChan d' = Suc (nextChan d)
       \<and> (MinInt64 \<le> endOffset (nextFetch d)
            \<and> endOffset (nextFetch d)
                + max 1 (targetMaxBytes (nextFetch d)
                           sdiv max (estimatedBytesPerRecord (nextFetch d)) 1) \<le> MaxInt64
          \<longrightarrow> startOffset (nextFetch d') < endOffset (nextFetch d'))"
proof -
  have "1000000 \<le> MaxBytes (nextFetch d)" "MaxBytes (nextFetch d) \<le> MaxInt32"
    using MaxBytes_bounds [of "nextFetch d"] by simp_all
  with lo hi have sum: "wrap64 (inflightBytes d + MaxBytes (nextFetch d))
      = inflightBytes d + MaxBytes (nextFetch d)"
    by (intro wrap64_id) (simp_all add: MinInt64_def)
  from step have enabled: "dispatchNextWant cfg highWatermark d"
    by (simp add: start_iteration_def split: if_splits)
  from step enabled have d': "d' = (inflight_append (nextFetch d) d)
      \<lparr> nextFetch := Next (nextChan d) (nextFetch d), nextChan := Suc (nextChan d) \<rparr>"
    and out: "out = [Dispatched (nextFetch d)]"
    by (simp_all add: start_iteration_def)
  from enabled sum have guard: "inflightWants d = []
          \<or> (inflightBytes d + MaxBytes (nextFetch d) \<le> maxBufferedBytesLimit cfg
              \<and> startOffset (nextFetch d) \<le> highWatermark)"
    by (auto simp add: dispatchNextWant_def Let_def)
  from d' have nxt: "nextFetch d' = Next (nextChan d) (nextFetch d)"
    by simp
  have advances: "startOffset (nextFetch d') < endOffset (nextFetch d')"
    if "MinInt64 \<le> endOffset (nextFetch d)
            \<and> endOffset (nextFetch d)
                + max 1 (targetMaxBytes (nextFetch d)
                           sdiv max (estimatedBytesPerRecord (nextFetch d)) 1) \<le> MaxInt64"
    unfolding nxt using that by (intro Next_advances) simp_all
  from guard d' out sum advances show ?thesis
    unfolding nxt Next_fields by (simp add: inflight_append_def)
qed

text \<open>
  The request size of the example want, and a dispatch with one want inflight: the byte
  budget and the high watermark allow the next one.
\<close>

lemma expectedBytes_example: "expectedBytes example_want = 21"
proof -
  have w: "wrap64 (estimatedBytesPerRecord example_want
      * wrap64 (endOffset example_want - startOffset example_want)) = 20"
    by (simp add: example_want_def wrap64_def)
  have i: "f64_of_int 20 = Fin 20"
    by (simp add: f64_of_int_exact)
  have m: "f64_mul overFetchBytesFactor (Fin 20) = Fin 21"
    unfolding c105 by (simp, subst f64_round_at [where l = 4]) (simp_all add: pow2_def rne_def Let_def)
  show ?thesis
    unfolding expectedBytes_def w i m
    by (simp add: f64_to_int64_def trunc_rat_def MinInt64_def MaxInt64_def)
qed

lemma MaxBytes_example: "MaxBytes example_want = 1000000"
  by (simp add: MaxBytes_def expectedBytes_example MaxInt32_def wrap32_def)

theorem dispatch_only_when_permitted_witness:
  "start_iteration example_config 3 example_dispatcher CaseDispatch
     = Continue
         \<lparr> nextFetch = \<lparr> startOffset = 2, endOffset = 4, estimatedBytesPerRecord = 10,
                         targetMaxBytes = 20, result = 8 \<rparr>,
           inflightWants = [expired_want, example_want], inflightBytes = 2000000,
           bufferedResult = zeroFetchResult, readyBufferedResults = False, nextChan = 9 \<rparr>
         [Dispatched example_want]
   \<and> inflightBytes example_dispatcher + MaxBytes example_want \<le> maxBufferedBytesLimit example_config
   \<and> startOffset example_want \<le> 3
   \<and> endOffset example_want = 2"
proof -
  have d: "nextFetch example_dispatcher = example_want" "inflightWants example_dispatcher = [expired_want]"
    "inflightBytes example_dispatcher = 1000000" "nextChan example_dispatcher = 8"
    by (simp_all add: example_dispatcher_def)
  have cfg: "maxBufferedBytesLimit example_config = 100000000"
    by (simp add: example_config_def)
  have w: "startOffset example_want = 0" "endOffset example_want = 2"
    by (simp_all add: example_want_def)
  have step: "start_iteration example_config 3 example_dispatcher CaseDispatch
     = Continue
         \<lparr> nextFetch = \<lparr> startOffset = 2, endOffset = 4, estimatedBytesPerRecord = 10,
                         targetMaxBytes = 20, result = 8 \<rparr>,
           inflightWants = [expired_want, example_want], inflightBytes = 2000000,
           bufferedResult = zeroFetchResult, readyBufferedResults = False, nextChan = 9 \<rparr>
         [Dispatched example_want]"
    by (simp add: start_iteration_def dispatchNextWant_def d cfg w MaxBytes_example wrap64_def
        Next_example inflight_append_def)
      (simp add: example_dispatcher_def)
  have lo: "MinInt64 \<le> inflightBytes example_dispatcher"
    and hi: "inflightBytes example_dispatcher \<le> MaxInt64 - MaxInt32"
    by (simp_all add: d MinInt64_def MaxInt64_def MaxInt32_def)
  from dispatch_only_when_permitted [OF step lo hi] step show ?thesis
    by (simp add: d cfg w MaxBytes_example)
qed

subsection \<open>PollFetches\<close>

lemma drop_recordIndexAfterOffset:
  "drop (recordIndexAfterOffset rs off) rs = dropWhile (\<lambda>x. Offset x \<le> off) rs"
  by (induction rs) (auto simp add: not_less)

lemma take_recordIndexAfterOffset:
  "take (recordIndexAfterOffset rs off) rs = takeWhile (\<lambda>x. Offset x \<le> off) rs"
  by (induction rs) (auto simp add: not_less)

lemma dropWhile_sorted_filter:
  "sorted_wrt (<) (map Offset rs) \<Longrightarrow>
   dropWhile (\<lambda>x. Offset x \<le> off) rs = filter (\<lambda>x. off < Offset x) rs"
proof (induction rs)
  case Nil
  then show ?case by simp
next
  case (Cons r rs)
  show ?case
  proof (cases "Offset r \<le> off")
    case True
    with Cons show ?thesis by simp
  next
    case False
    with Cons.prems have "\<forall>x\<in>set rs. off < Offset x"
      by auto
    then have "filter (\<lambda>x. off < Offset x) rs = rs"
      by (simp add: filter_id_conv)
    with False show ?thesis by simp
  qed
qed

lemma sorted_last_max:
  "sorted_wrt (<) (map Offset rs) \<Longrightarrow> x \<in> set rs \<Longrightarrow> Offset x \<le> Offset (last rs)"
proof (induction rs)
  case Nil
  then show ?case by simp
next
  case (Cons r rs)
  then show ?case
    by (cases "rs = []") (auto simp add: less_imp_le dest: last_in_set)
qed

lemma PollFetches_records:
  "fst (PollFetches r (PollFetched f)) =
     [\<lparr> Records = records_after_last r f, Err = Err f, HighWatermark = HighWatermark f,
         LogStartOffset = LogStartOffset f \<rparr>]"
  by (simp add: PollFetches_def Let_def records_after_last_def drop_recordIndexAfterOffset)

lemma PollFetches_last:
  "lastReturnedRecord (snd (PollFetches r (PollFetched f))) =
     (if records_after_last r f = [] then lastReturnedRecord r else Offset (last (records_after_last r f)))"
  unfolding PollFetches_def Let_def drop_recordIndexAfterOffset records_after_last_def
  by (simp del: dropWhile_eq_Nil_conv)

lemma PollFetches_counters:
  "bufferedFetchedRecords (snd (PollFetches r (PollFetched f))) =
     wrap64 (bufferedFetchedRecords r - int (length (Records f)))"
  "fetchedDiscardedRecordBytes (snd (PollFetches r (PollFetched f))) =
     fetchedDiscardedRecordBytes r
       + sumRecordLengths (takeWhile (\<lambda>x. Offset x \<le> lastReturnedRecord r) (Records f))"
  unfolding PollFetches_def Let_def drop_recordIndexAfterOffset doubleFetchedBytes_def
    take_recordIndexAfterOffset
  by (simp_all del: dropWhile_eq_Nil_conv)

lemma records_after_last_sorted:
  assumes "sorted_wrt (<) (map Offset (Records f))"
  shows "sorted_wrt (<) (map Offset (records_after_last r f))"
    and "\<forall>x\<in>set (records_after_last r f). lastReturnedRecord r < Offset x"
    and "\<forall>x\<in>set (records_after_last r f). Offset x \<le> Offset (last (records_after_last r f))"
proof -
  have eq: "records_after_last r f = filter (\<lambda>x. lastReturnedRecord r < Offset x) (Records f)"
    unfolding records_after_last_def using assms by (rule dropWhile_sorted_filter)
  show sorted: "sorted_wrt (<) (map Offset (records_after_last r f))"
    unfolding records_after_last_def sorted_wrt_map using assms
    by (simp add: sorted_wrt_map)
  show "\<forall>x\<in>set (records_after_last r f). lastReturnedRecord r < Offset x"
    by (simp add: eq)
  show "\<forall>x\<in>set (records_after_last r f). Offset x \<le> Offset (last (records_after_last r f))"
    using sorted_last_max [OF sorted] by blast
qed

lemma poll_all_sorted:
  assumes "\<forall>f. PollFetched f \<in> set cs \<longrightarrow> sorted_wrt (<) (map Offset (Records f))"
  shows "sorted_wrt (<) (delivered_offsets (fst (poll_all r cs)))
         \<and> (\<forall>x\<in>set (delivered_offsets (fst (poll_all r cs))).
               lastReturnedRecord r < x \<and> x \<le> lastReturnedRecord (snd (poll_all r cs)))
         \<and> lastReturnedRecord r \<le> lastReturnedRecord (snd (poll_all r cs))"
  using assms
proof (induction cs arbitrary: r)
  case Nil
  then show ?case by (simp add: delivered_offsets_def)
next
  case (Cons c cs)
  define r1 where "r1 = snd (PollFetches r c)"
  define ps where "ps = fst (PollFetches r c)"
  have split: "poll_all r (c # cs) = (ps @ fst (poll_all r1 cs), snd (poll_all r1 cs))"
    by (simp add: Let_def r1_def ps_def)
  from Cons.prems have "\<forall>f. PollFetched f \<in> set cs \<longrightarrow> sorted_wrt (<) (map Offset (Records f))"
    by simp
  from Cons.IH [OF this, of r1]
  have ih: "sorted_wrt (<) (delivered_offsets (fst (poll_all r1 cs)))"
    "\<forall>x\<in>set (delivered_offsets (fst (poll_all r1 cs))).
        lastReturnedRecord r1 < x \<and> x \<le> lastReturnedRecord (snd (poll_all r1 cs))"
    "lastReturnedRecord r1 \<le> lastReturnedRecord (snd (poll_all r1 cs))"
    by simp_all
  have step: "sorted_wrt (<) (delivered_offsets ps)
      \<and> (\<forall>x\<in>set (delivered_offsets ps). lastReturnedRecord r < x \<and> x \<le> lastReturnedRecord r1)
      \<and> lastReturnedRecord r \<le> lastReturnedRecord r1"
  proof (cases c)
    case PollCtxDone
    then show ?thesis
      by (simp add: ps_def r1_def PollFetches_def delivered_offsets_def)
  next
    case (PollFetched f)
    with Cons.prems have srt: "sorted_wrt (<) (map Offset (Records f))"
      by simp
    note facts = records_after_last_sorted [OF srt, of r]
    show ?thesis
    proof (cases "records_after_last r f = []")
      case True
      with PollFetched show ?thesis
        by (simp add: ps_def r1_def PollFetches_records PollFetches_last delivered_offsets_def)
    next
      case False
      then have "last (records_after_last r f) \<in> set (records_after_last r f)"
        by simp
      with facts(2) have "lastReturnedRecord r \<le> Offset (last (records_after_last r f))"
        by (simp add: less_imp_le)
      with PollFetched False facts show ?thesis
        by (simp add: ps_def r1_def PollFetches_records PollFetches_last delivered_offsets_def)
    qed
  qed
  have app: "delivered_offsets (ps @ fst (poll_all r1 cs))
      = delivered_offsets ps @ delivered_offsets (fst (poll_all r1 cs))"
    by (simp add: delivered_offsets_def)
  from step ih show ?case
    unfolding split fst_conv snd_conv app
    by (fastforce simp add: sorted_wrt_append)
qed

text \<open>The batches a worker sends are in strictly increasing offset order.\<close>

lemma fetchSingle_records:
  "Records (fetchSingle cfg w ld br) = []
   \<or> (\<exists>raw. Records (fetchSingle cfg w ld br)
          = Records (ProcessRespPartition cfg (startOffset w) raw))"
  by (auto simp add: fetchSingle_def parseFetchResponse_def newEmptyFetchResult_def Let_def
      split: prod.splits option.splits sum.splits list.splits)

lemma send_result_previous:
  "out_previous (send_result env w f evs) = f
   \<or> out_previous (send_result env w f evs) = zeroFetchResult"
  by (simp add: send_result_def Let_def split: select_outcome.splits blocking_outcome.splits)

lemma send_result_previous_in_order:
  "in_order_below b (Records f) \<Longrightarrow> in_order_below b (Records (out_previous (send_result env w f evs)))"
  using send_result_previous [of env w f evs]
  by (auto simp add: in_order_below_def zeroFetchResult_def newEmptyFetchResult_def)

lemma attempt_in_order:
  assumes decoder: "decoder_in_order cfg"
    and prev: "in_order_below (startOffset w) (Records prev)"
  shows "in_order_below (startOffset (out_want (attempt cfg env w prev)))
           (Records (out_previous (attempt cfg env w prev)))"
    and "Publish c g \<in> set (out_events (attempt cfg env w prev))
           \<Longrightarrow> sorted_wrt (<) (map Offset (Records g))"
proof -
  define f0 where "f0 = fetchSingle cfg w (leader env) (broker env)"
  define f where "f = Merge f0 prev"
  define handled where
    "handled = (if Err f \<noteq> None then handleKafkaFetchErr (Err f) w (cachedOffset env) else (w, []))"
  define evs2 where
    "evs2 = (if 0 \<le> HighWatermark f
             then ([AddBufferedRecords (int (length (Records f0)))] @ map Effect (snd handled))
                    @ [CasHWM (HighWatermark f)]
             else [AddBufferedRecords (int (length (Records f0)))] @ map Effect (snd handled))"
  note unfolded = attempt_unfold [OF f0_def f_def handled_def evs2_def]
  have quiet: "Publish c g \<notin> set evs2"
    by (auto simp add: evs2_def)
  have f0: "sorted_wrt (<) (map Offset (Records f0))"
    "\<forall>x\<in>set (Records f0). startOffset w \<le> Offset x \<and> MinInt64 \<le> Offset x \<and> Offset x < MaxInt64"
    using fetchSingle_records [of cfg w "leader env" "broker env"] decoder
    unfolding f0_def decoder_in_order_def by (auto simp add: list_all_iff)
  have recs: "Records f = Records prev @ Records f0"
    by (simp add: f_def Merge_def)
  from prev f0 have sorted: "sorted_wrt (<) (map Offset (Records f))"
    unfolding recs in_order_below_def
    by (fastforce simp add: sorted_wrt_append list_all_iff)
  from prev f0 have range: "\<forall>x\<in>set (Records f). MinInt64 \<le> Offset x \<and> Offset x < MaxInt64"
    unfolding recs in_order_below_def by (auto simp add: list_all_iff)
  show "in_order_below (startOffset (out_want (attempt cfg env w prev)))
           (Records (out_previous (attempt cfg env w prev)))"
  proof (cases "Records f = []")
    case True
    then show ?thesis
      by (simp add: unfolded in_order_below_def)
  next
    case False
    then have "last (Records f) \<in> set (Records f)"
      by simp
    with range have "wrap64 (Offset (last (Records f)) + 1) = Offset (last (Records f)) + 1"
      by (intro wrap64_id) (auto simp add: MinInt64_def)
    moreover have "\<forall>x\<in>set (Records f). Offset x \<le> Offset (last (Records f))"
      using sorted_last_max [OF sorted] by blast
    ultimately have below: "in_order_below (wrap64 (Offset (last (Records f)) + 1)) (Records f)"
      using sorted range by (auto simp add: in_order_below_def list_all_iff)
    from False send_result_previous_in_order [OF below] show ?thesis
      unfolding unfolded by simp
  qed
  show "sorted_wrt (<) (map Offset (Records g))"
    if "Publish c g \<in> set (out_events (attempt cfg env w prev))"
  proof (cases "Records f = []")
    case True
    with that quiet show ?thesis
      by (auto simp add: unfolded split: if_splits)
  next
    case False
    with that have "Publish c g \<in> set (out_events (send_result env
          (UpdateBytesPerRecord
             ((fst handled) \<lparr> startOffset := wrap64 (Offset (last (Records f)) + 1) \<rparr>)
             (fetchedBytes f) (int (length (Records f))))
          f (evs2 @ [UpdateCall (fetchedBytes f) (int (length (Records f))), BackoffReset])))"
      by (simp add: unfolded)
    from subsetD [OF send_result_events this] quiet have "g = f"
      by auto
    with sorted show ?thesis
      by simp
  qed
qed

lemma run_want_publishes_in_order:
  assumes decoder: "decoder_in_order cfg"
  shows "in_order_below (startOffset w) (Records prev)
    \<Longrightarrow> Publish c g \<in> set (fst (run_want cfg envs w prev))
    \<Longrightarrow> sorted_wrt (<) (map Offset (Records g))"
proof (induction envs arbitrary: w prev)
  case Nil
  then show ?case by simp
next
  case (Cons env envs)
  note A = attempt_in_order [OF decoder Cons.prems(1), where env = env]
  show ?case
  proof (cases "ongoing env \<and> startOffset w < endOffset w")
    case False
    with Cons.prems(2) show ?thesis
      by simp
  next
    case True
    show ?thesis
    proof (cases "out_returned (attempt cfg env w prev)")
      case r: True
      with True Cons.prems(2) A(2) show ?thesis
        by (simp add: Let_def)
    next
      case r: False
      with True Cons.prems(2)
      have "Publish c g \<in> set (out_events (attempt cfg env w prev))
          \<or> Publish c g \<in> set (fst (run_want cfg envs (out_want (attempt cfg env w prev))
                (out_previous (attempt cfg env w prev))))"
        by (simp add: Let_def)
      with A Cons.IH show ?thesis
        by blast
    qed
  qed
qed

text \<open>
  Claim C1. When every batch arriving on \<open>orderedFetches\<close> is in strictly increasing
  offset order, the records \<open>PollFetches\<close> hands to the consumer over any sequence of
  polls have strictly increasing offsets, without duplicates, all above the offset last
  returned before. Of each batch the leading records with an offset at or below
  \<open>lastReturnedRecord\<close> are dropped, which for such a batch are all its records at or
  below it; the rest are returned in their order, and \<open>lastReturnedRecord\<close> becomes the
  offset of the last returned record, or stays when none is returned. The batches are in
  that order: a worker that starts a want with nothing pending only sends batches in
  strictly increasing offset order, given a decoder that yields records in order.
\<close>

theorem PollFetches_strictly_increasing:
  assumes "\<forall>f. PollFetched f \<in> set cs \<longrightarrow> sorted_wrt (<) (map Offset (Records f))"
  shows "sorted_wrt (<) (delivered_offsets (fst (poll_all r cs)))
       \<and> distinct (delivered_offsets (fst (poll_all r cs)))
       \<and> (\<forall>x\<in>set (delivered_offsets (fst (poll_all r cs))). lastReturnedRecord r < x)
       \<and> (PollFetched f \<in> set cs \<longrightarrow>
            map Records (fst (PollFetches r' (PollFetched f)))
              = [filter (\<lambda>x. lastReturnedRecord r' < Offset x) (Records f)]
          \<and> map Records (fst (PollFetches r' (PollFetched f))) = [records_after_last r' f]
          \<and> lastReturnedRecord (snd (PollFetches r' (PollFetched f)))
              = (if records_after_last r' f = [] then lastReturnedRecord r'
                 else Offset (last (records_after_last r' f))))
       \<and> (decoder_in_order cfg \<and> Publish c g \<in> set (fst (run_want cfg envs w zeroFetchResult))
            \<longrightarrow> sorted_wrt (<) (map Offset (Records g)))"
proof -
  note all = poll_all_sorted [OF assms, of r]
  from all have srt: "sorted_wrt (<) (delivered_offsets (fst (poll_all r cs)))"
    by blast
  then have dist: "distinct (delivered_offsets (fst (poll_all r cs)))"
    by (simp add: strict_sorted_iff)
  from all have above: "\<forall>x\<in>set (delivered_offsets (fst (poll_all r cs))). lastReturnedRecord r < x"
    by blast
  have one: "map Records (fst (PollFetches r' (PollFetched f)))
              = [filter (\<lambda>x. lastReturnedRecord r' < Offset x) (Records f)]
          \<and> map Records (fst (PollFetches r' (PollFetched f))) = [records_after_last r' f]
          \<and> lastReturnedRecord (snd (PollFetches r' (PollFetched f)))
              = (if records_after_last r' f = [] then lastReturnedRecord r'
                 else Offset (last (records_after_last r' f)))"
    if "PollFetched f \<in> set cs"
  proof -
    from that assms have "sorted_wrt (<) (map Offset (Records f))"
      by blast
    then have "records_after_last r' f = filter (\<lambda>x. lastReturnedRecord r' < Offset x) (Records f)"
      unfolding records_after_last_def by (rule dropWhile_sorted_filter)
    then show ?thesis
      by (simp add: PollFetches_records PollFetches_last)
  qed
  have no_prev: "in_order_below (startOffset w) (Records zeroFetchResult)"
    by (simp add: in_order_below_def zeroFetchResult_def newEmptyFetchResult_def)
  have worker: "sorted_wrt (<) (map Offset (Records g))"
    if "decoder_in_order cfg \<and> Publish c g \<in> set (fst (run_want cfg envs w zeroFetchResult))"
  proof -
    from that have dec: "decoder_in_order cfg"
      and pub: "Publish c g \<in> set (fst (run_want cfg envs w zeroFetchResult))"
      by simp_all
    from dec no_prev pub show ?thesis
      by (rule run_want_publishes_in_order)
  qed
  from srt dist above one worker show ?thesis
    by blast
qed

text \<open>
  Three polls after offset 4: a batch overlapping what was returned, a cancelled poll, a
  batch overlapping the first. And the batch the example's worker sends.
\<close>

theorem PollFetches_strictly_increasing_witness:
  "delivered_offsets (fst (poll_all example_fetcher example_polls)) = [5, 6, 7]
   \<and> sorted_wrt (<) (delivered_offsets (fst (poll_all example_fetcher example_polls)))
   \<and> distinct (delivered_offsets (fst (poll_all example_fetcher example_polls)))
   \<and> lastReturnedRecord (snd (poll_all example_fetcher example_polls)) = 7
   \<and> decoder_in_order example_config
   \<and> sorted_wrt (<) (map Offset (Records example_result))"
proof -
  have hyp: "\<forall>f. PollFetched f \<in> set example_polls \<longrightarrow> sorted_wrt (<) (map Offset (Records f))"
    by (auto simp add: example_polls_def)
  have run: "delivered_offsets (fst (poll_all example_fetcher example_polls)) = [5, 6, 7]"
    "lastReturnedRecord (snd (poll_all example_fetcher example_polls)) = 7"
    by (simp_all add: example_polls_def example_fetcher_def PollFetches_def Let_def
        delivered_offsets_def)
  have dec: "decoder_in_order example_config"
    by (simp add: decoder_in_order_def example_config_def example_records_def list_all_iff
        MinInt64_def MaxInt64_def)
  have pub: "Publish 7 example_result
      \<in> set (fst (run_want example_config [example_env] example_want zeroFetchResult))"
    by (simp only: example_run fst_conv) simp
  from PollFetches_strictly_increasing [OF hyp, where r = example_fetcher
      and cfg = example_config and c = 7 and g = example_result and envs = "[example_env]"
      and w = example_want] run dec pub
  show ?thesis
    by simp
qed

end
